theory Spec2Isabelle
  imports Main
begin

section \<open>Byte strings: the string helpers used by the configuration engine\<close>

text \<open>
  Go strings are byte sequences; \<open>string\<close> is a list of bytes.  The keys that
  \<^verbatim>\<open>cmd/gonzo/main.go\<close> itself names are ASCII literals; on an ASCII string
  \<^verbatim>\<open>strings.ToUpper\<close> and \<^verbatim>\<open>strings.ToLower\<close> run a byte loop that
  exchanges \<^verbatim>\<open>a-z\<close> and \<^verbatim>\<open>A-Z\<close> and keeps every other byte.
  \<open>ToUpper\<close> and \<open>ToLower\<close> are these byte loops; the keys of a configuration file,
  which may hold any bytes, are lower-cased by \<open>lowerKey\<close> below.
\<close>

definition lower_letters :: string where
  "lower_letters = ''abcdefghijklmnopqrstuvwxyz''"

definition upper_letters :: string where
  "upper_letters = ''ABCDEFGHIJKLMNOPQRSTUVWXYZ''"

definition upper_char :: "char \<Rightarrow> char" where
  "upper_char c = (case map_of (zip lower_letters upper_letters) c of Some u \<Rightarrow> u | None \<Rightarrow> c)"

definition lower_char :: "char \<Rightarrow> char" where
  "lower_char c = (case map_of (zip upper_letters lower_letters) c of Some l \<Rightarrow> l | None \<Rightarrow> c)"

definition ToUpper :: "string \<Rightarrow> string" where
  "ToUpper s = map upper_char s"

definition ToLower :: "string \<Rightarrow> string" where
  "ToLower s = map lower_char s"

text \<open>
  \<^verbatim>\<open>strings.ToLower\<close> on an arbitrary key: the byte loop above when every byte is
  ASCII, and otherwise \<^verbatim>\<open>strings.Map(unicode.ToLower, key)\<close>, which goes through the
  Unicode tables of the Go runtime; these tables are the parameter \<open>u\<close>.
\<close>

definition isASCII :: "string \<Rightarrow> bool" where
  "isASCII s = list_all (\<lambda>c. (of_char c :: nat) < 128) s"

definition lowerKey :: "(string \<Rightarrow> string) \<Rightarrow> string \<Rightarrow> string" where
  "lowerKey u k = (if isASCII k then ToLower k else u k)"

text \<open>
  \<^verbatim>\<open>strings.NewReplacer(old, new).Replace\<close> for one pair of one-byte strings, the
  only replacer the program builds (\<^verbatim>\<open>strings.NewReplacer("-", "_")\<close>).
\<close>

definition Replace :: "char \<times> char \<Rightarrow> string \<Rightarrow> string" where
  "Replace r s = map (\<lambda>c. if c = fst r then snd r else c) s"

text \<open>
  \<^verbatim>\<open>strings.Split(s, ",")\<close>: the fields between the separators, in order; a string
  with n separators has n + 1 fields, empty fields included.
\<close>

fun split_acc :: "char \<Rightarrow> string \<Rightarrow> string \<Rightarrow> string list" where
  "split_acc sep acc [] = [rev acc]"
| "split_acc sep acc (c # cs) =
     (if c = sep then rev acc # split_acc sep [] cs else split_acc sep (c # acc) cs)"

definition Split :: "string \<Rightarrow> char \<Rightarrow> string list" where
  "Split s sep = split_acc sep [] s"

text \<open>\<^verbatim>\<open>strings.Join(xs, ",")\<close>, used to state what splitting preserves.\<close>

fun Join :: "string list \<Rightarrow> char \<Rightarrow> string" where
  "Join [] sep = []"
| "Join [x] sep = x"
| "Join (x # y # ys) sep = x @ sep # Join (y # ys) sep"

section \<open>The flag schema of \<^verbatim>\<open>init()\<close>\<close>

datatype ftype = TInt | TDuration | TBool | TString | TStringSlice

text \<open>
  A value as viper hands it to the decoder.  A flag of scalar type is read through
  \<^verbatim>\<open>flag.ValueString()\<close> and an environment variable is a string, so both are
  \<open>VStr\<close>; a string-slice flag yields \<open>VStrs\<close>; a YAML document yields strings,
  integers, booleans and sequences of strings.
\<close>

datatype raw = VStr string | VInt int | VBool bool | VStrs "string list"

record flag =
  fname :: string
  ftyp :: ftype
  fdefault :: raw

definition mkflag :: "string \<Rightarrow> ftype \<Rightarrow> raw \<Rightarrow> flag" where
  "mkflag n t d = \<lparr>fname = n, ftyp = t, fdefault = d\<rparr>"

text \<open>
  The flags declared at lines 140-160, in source order, each with the text of its default
  (\<^verbatim>\<open>10000\<close>, \<^verbatim>\<open>1*time.Second\<close> printed as \<^verbatim>\<open>1s\<close>,
  \<^verbatim>\<open>false\<close>, \<^verbatim>\<open>[]string{}\<close>).
\<close>

definition rootFlags :: "flag list" where
  "rootFlags =
    [mkflag ''config'' TString (VStr ''''),
     mkflag ''memory-size'' TInt (VStr ''10000''),
     mkflag ''update-interval'' TDuration (VStr ''1s''),
     mkflag ''log-buffer'' TInt (VStr ''1000''),
     mkflag ''test-mode'' TBool (VStr ''false''),
     mkflag ''version'' TBool (VStr ''false''),
     mkflag ''ai-model'' TString (VStr ''''),
     mkflag ''file'' TStringSlice (VStrs []),
     mkflag ''follow'' TBool (VStr ''false''),
     mkflag ''otlp-enabled'' TBool (VStr ''false''),
     mkflag ''otlp-grpc-port'' TInt (VStr ''4317''),
     mkflag ''otlp-http-port'' TInt (VStr ''4318''),
     mkflag ''vmlogs-url'' TString (VStr ''''),
     mkflag ''vmlogs-user'' TString (VStr ''''),
     mkflag ''vmlogs-password'' TString (VStr ''''),
     mkflag ''vmlogs-query'' TString (VStr ''*''),
     mkflag ''skin'' TString (VStr ''default''),
     mkflag ''stop-words'' TStringSlice (VStrs []),
     mkflag ''format'' TString (VStr ''''),
     mkflag ''disable-version-check'' TBool (VStr ''false''),
     mkflag ''reverse-scroll-wheel'' TBool (VStr ''false'')]"

text \<open>\<^verbatim>\<open>rootCmd.Flags().Lookup(name)\<close>: the declared flag of that name, or nil.\<close>

definition Lookup :: "string \<Rightarrow> flag option" where
  "Lookup n = find (\<lambda>f. fname f = n) rootFlags"

text \<open>
  The \<^verbatim>\<open>viper.BindPFlag(key, rootCmd.Flags().Lookup(name))\<close> calls of lines
  163-181 as pairs (key, name), in source order.
\<close>

definition bindings :: "(string \<times> string) list" where
  "bindings =
    [(''memory-size'', ''memory-size''),
     (''update-interval'', ''update-interval''),
     (''log-buffer'', ''log-buffer''),
     (''test-mode'', ''test-mode''),
     (''ai-model'', ''ai-model''),
     (''files'', ''file''),
     (''follow'', ''follow''),
     (''otlp-enabled'', ''otlp-enabled''),
     (''otlp-grpc-port'', ''otlp-grpc-port''),
     (''otlp-http-port'', ''otlp-http-port''),
     (''vmlogs-url'', ''vmlogs-url''),
     (''vmlogs-user'', ''vmlogs-user''),
     (''vmlogs-password'', ''vmlogs-password''),
     (''vmlogs-query'', ''vmlogs-query''),
     (''skin'', ''skin''),
     (''stop-words'', ''stop-words''),
     (''format'', ''format''),
     (''disable-version-check'', ''disable-version-check''),
     (''reverse-scroll-wheel'', ''reverse-scroll-wheel'')]"

text \<open>The setting keys: the keys that \<^verbatim>\<open>init()\<close> binds.\<close>

definition setting_keys :: "string list" where
  "setting_keys = map fst bindings"

text \<open>
  The fields of \<^verbatim>\<open>type Config struct\<close> (lines 28-49): the
  \<^verbatim>\<open>mapstructure\<close> tag and the Go type of each field, in source order.
\<close>

definition config_fields :: "(string \<times> ftype) list" where
  "config_fields =
    [(''memory-size'', TInt),
     (''update-interval'', TDuration),
     (''log-buffer'', TInt),
     (''test-mode'', TBool),
     (''config'', TString),
     (''ai-model'', TString),
     (''files'', TStringSlice),
     (''follow'', TBool),
     (''otlp-enabled'', TBool),
     (''otlp-grpc-port'', TInt),
     (''otlp-http-port'', TInt),
     (''vmlogs-url'', TString),
     (''vmlogs-user'', TString),
     (''vmlogs-password'', TString),
     (''vmlogs-query'', TString),
     (''skin'', TString),
     (''stop-words'', TStringSlice),
     (''format'', TString),
     (''disable-version-check'', TBool),
     (''reverse-scroll-wheel'', TBool)]"

section \<open>String-slice flags: pflag's reader\<close>

definition dquote :: char where
  "dquote = CHR 0x22"

definition lf :: char where
  "lf = CHR 0x0A"

definition cr :: char where
  "cr = CHR 0x0D"

text \<open>
  \<^verbatim>\<open>encoding/csv\<close> reads its input line by line; every line end
  \<^verbatim>\<open>\r\n\<close> is turned into \<^verbatim>\<open>\n\<close>, and a carriage return that ends the
  input is dropped.
\<close>

fun normNL :: "string \<Rightarrow> string" where
  "normNL [] = []"
| "normNL [c] = (if c = cr then [] else [c])"
| "normNL (c # d # cs) = (if c = cr \<and> d = lf then lf # normNL cs else c # normNL (d # cs))"

text \<open>
  One record of \<^verbatim>\<open>csv.Reader\<close> with its default settings (comma separator, no
  lazy quotes, no trimming), as a machine over the bytes: \<open>acc\<close> is the current field
  in reverse, \<open>fs\<close> the finished fields in reverse.  A field that starts with a double
  quote runs to the closing quote (a doubled quote stands for one quote, line feeds
  belong to the field) and must be followed by a comma or the end of the line; any other
  field runs to the next comma or the end of the line and must not hold a double quote.
  \<open>None\<close> is a parse error.
\<close>

datatype csvstate = FieldStart | Bare | Quoted | AfterQuote

fun csvRecord :: "csvstate \<Rightarrow> string \<Rightarrow> string list \<Rightarrow> string \<Rightarrow> string list option" where
  "csvRecord FieldStart acc fs [] = Some (rev ([] # fs))"
| "csvRecord FieldStart acc fs (c # cs) =
     (if c = dquote then csvRecord Quoted [] fs cs
      else if c = CHR '','' then csvRecord FieldStart [] ([] # fs) cs
      else if c = lf then Some (rev ([] # fs))
      else csvRecord Bare [c] fs cs)"
| "csvRecord Bare acc fs [] = Some (rev (rev acc # fs))"
| "csvRecord Bare acc fs (c # cs) =
     (if c = CHR '','' then csvRecord FieldStart [] (rev acc # fs) cs
      else if c = lf then Some (rev (rev acc # fs))
      else if c = dquote then None
      else csvRecord Bare (c # acc) fs cs)"
| "csvRecord Quoted acc fs [] = None"
| "csvRecord Quoted acc fs (c # cs) =
     (if c = dquote then csvRecord AfterQuote acc fs cs else csvRecord Quoted (c # acc) fs cs)"
| "csvRecord AfterQuote acc fs [] = Some (rev (rev acc # fs))"
| "csvRecord AfterQuote acc fs (c # cs) =
     (if c = dquote then csvRecord Quoted (dquote # acc) fs cs
      else if c = CHR '','' then csvRecord FieldStart [] (rev acc # fs) cs
      else if c = lf then Some (rev (rev acc # fs))
      else None)"

text \<open>
  pflag's \<^verbatim>\<open>readAsCSV\<close>: the empty text is the empty list; otherwise the first
  record of the text, empty lines before it skipped; an input of empty lines only is an
  error (end of file).
\<close>

definition readAsCSV :: "string \<Rightarrow> string list option" where
  "readAsCSV val =
     (if val = [] then Some []
      else (case dropWhile (\<lambda>c. c = lf) (normNL val) of
              [] \<Rightarrow> None
            | t \<Rightarrow> csvRecord FieldStart [] [] t))"

text \<open>
  viper does not take the slice a string-slice flag holds: it takes the text the flag
  prints (\<^verbatim>\<open>"[" + writeAsCSV(elements) + "]"\<close>), strips the brackets and reads the
  text again with \<^verbatim>\<open>readAsCSV\<close>.  The writer quotes what needs quoting, so the
  elements come back as they are, with two exceptions: a lone empty element prints as the
  empty text and comes back as no element, and a \<^verbatim>\<open>\r\n\<close> inside an element
  comes back as \<^verbatim>\<open>\n\<close>.
\<close>

fun crlf :: "string \<Rightarrow> string" where
  "crlf (c # d # cs) = (if c = cr \<and> d = lf then lf # crlf cs else c # crlf (d # cs))"
| "crlf cs = cs"

definition readBack :: "string list \<Rightarrow> string list" where
  "readBack xs = (if xs = [[]] then [] else map crlf xs)"

section \<open>The process environment, the file system and the parsed command line\<close>

text \<open>
  A configuration file is abstracted to what \<^verbatim>\<open>viper.ReadInConfig\<close> makes of it:
  \<open>Parsed d\<close> when the file is read and parsed into the top-level mapping \<open>d\<close>,
  \<open>Malformed\<close> when it exists and reading it returns an error (invalid syntax,
  unsupported type).  Documents are flat: keys hold scalars or string sequences, carry no
  key delimiter and are distinct up to letter case.
\<close>

datatype conffile = Malformed | Parsed "(string \<times> raw) list"

text \<open>
  The command line after cobra has parsed it: for every flag that was supplied, the text
  of its value (\<^verbatim>\<open>Value.String()\<close>) or, for a string-slice flag, the elements the
  flag holds.  A flag that was not supplied is absent from both maps
  (\<^verbatim>\<open>Changed\<close> is false).
\<close>

record cmdline =
  scalars :: "string \<rightharpoonup> string"
  slices :: "string \<rightharpoonup> string list"

text \<open>
  What a run depends on: the parsed command line, the process environment, the result of
  \<^verbatim>\<open>os.UserHomeDir\<close> (\<open>None\<close> is its error), the file system, and the
  Unicode lower-casing of the runtime (\<^verbatim>\<open>strings.Map(unicode.ToLower, key)\<close>,
  consulted for keys with non-ASCII bytes only).
\<close>

record world =
  args :: cmdline
  environ :: "string \<rightharpoonup> string"
  home :: "string option"
  files :: "string \<rightharpoonup> conffile"
  unicodeLower :: "string \<Rightarrow> string"

definition HasChanged :: "cmdline \<Rightarrow> flag \<Rightarrow> bool" where
  "HasChanged c f =
     (case ftyp f of
        TStringSlice \<Rightarrow> slices c (fname f) \<noteq> None
      | _ \<Rightarrow> scalars c (fname f) \<noteq> None)"

text \<open>The value viper reads from a bound flag: the supplied one, else the flag's default.\<close>

definition flagValue :: "cmdline \<Rightarrow> flag \<Rightarrow> raw" where
  "flagValue c f =
     (case ftyp f of
        TStringSlice \<Rightarrow>
          (case slices c (fname f) of Some xs \<Rightarrow> VStrs (readBack xs) | None \<Rightarrow> fdefault f)
      | _ \<Rightarrow> (case scalars c (fname f) of Some s \<Rightarrow> VStr s | None \<Rightarrow> fdefault f))"

text \<open>
  The variable \<^verbatim>\<open>cfgFile\<close>, filled by
  \<^verbatim>\<open>PersistentFlags().StringVar(&cfgFile, "config", "", ...)\<close> (line 140).
\<close>

definition cfgFile :: "cmdline \<Rightarrow> string" where
  "cfgFile c = (case scalars c ''config'' of Some p \<Rightarrow> p | None \<Rightarrow> [])"

section \<open>The viper registry\<close>

text \<open>
  The part of viper's state that the program touches, and the library calls the program
  makes, by their documented behaviour.
\<close>

record viper =
  configFile :: string
  configPaths :: "string list"
  configName :: string
  configType :: string
  envPrefix :: string
  automaticEnvApplied :: bool
  envKeyReplacer :: "(char \<times> char) option"
  pflags :: "(string \<times> flag) list"
  config :: "(string \<times> raw) list"

definition New :: viper where
  "New = \<lparr>configFile = [], configPaths = [], configName = ''config'', configType = [],
          envPrefix = [], automaticEnvApplied = False, envKeyReplacer = None,
          pflags = [], config = []\<rparr>"

text \<open>
  \<^verbatim>\<open>BindPFlag(key, flag)\<close>: a nil flag is an error (which \<^verbatim>\<open>init\<close> drops).
  The flag is stored under the lower-cased key; the keys \<^verbatim>\<open>init\<close> passes are ASCII
  literals, for which lower-casing is the byte loop.
\<close>

definition BindPFlag :: "string \<Rightarrow> flag option \<Rightarrow> viper \<Rightarrow> viper" where
  "BindPFlag key fo v =
     (case fo of None \<Rightarrow> v | Some f \<Rightarrow> v\<lparr>pflags := pflags v @ [(ToLower key, f)]\<rparr>)"

definition SetConfigFile :: "string \<Rightarrow> viper \<Rightarrow> viper" where
  "SetConfigFile p v = (if p \<noteq> [] then v\<lparr>configFile := p\<rparr> else v)"

definition AddConfigPath :: "string \<Rightarrow> viper \<Rightarrow> viper" where
  "AddConfigPath p v =
     (if p \<noteq> [] \<and> p \<notin> set (configPaths v) then v\<lparr>configPaths := configPaths v @ [p]\<rparr> else v)"

definition SetConfigType :: "string \<Rightarrow> viper \<Rightarrow> viper" where
  "SetConfigType t v = (if t \<noteq> [] then v\<lparr>configType := t\<rparr> else v)"

definition SetConfigName :: "string \<Rightarrow> viper \<Rightarrow> viper" where
  "SetConfigName n v = (if n \<noteq> [] then v\<lparr>configName := n, configFile := []\<rparr> else v)"

definition SetEnvPrefix :: "string \<Rightarrow> viper \<Rightarrow> viper" where
  "SetEnvPrefix p v = (if p \<noteq> [] then v\<lparr>envPrefix := p\<rparr> else v)"

definition AutomaticEnv :: "viper \<Rightarrow> viper" where
  "AutomaticEnv v = v\<lparr>automaticEnvApplied := True\<rparr>"

definition SetEnvKeyReplacer :: "char \<times> char \<Rightarrow> viper \<Rightarrow> viper" where
  "SetEnvKeyReplacer r v = v\<lparr>envKeyReplacer := Some r\<rparr>"

definition mergeWithEnvPrefix :: "viper \<Rightarrow> string \<Rightarrow> string" where
  "mergeWithEnvPrefix v k =
     (if envPrefix v \<noteq> [] then ToUpper (envPrefix v @ ''_'' @ k) else ToUpper k)"

text \<open>The name under which a key is looked up in the environment.\<close>

definition envName :: "viper \<Rightarrow> string \<Rightarrow> string" where
  "envName v k =
     (case envKeyReplacer v of
        Some r \<Rightarrow> Replace r (mergeWithEnvPrefix v k)
      | None \<Rightarrow> mergeWithEnvPrefix v k)"

text \<open>
  \<^verbatim>\<open>getEnv\<close>: \<^verbatim>\<open>AllowEmptyEnv\<close> is never called, so a variable set to the
  empty string counts as unset.
\<close>

definition getEnv :: "viper \<Rightarrow> (string \<rightharpoonup> string) \<Rightarrow> string \<Rightarrow> string option" where
  "getEnv v env k =
     (case env (envName v k) of
        Some val \<Rightarrow> if val \<noteq> [] then Some val else None
      | None \<Rightarrow> None)"

text \<open>
  The four layers of \<^verbatim>\<open>find\<close>, the lookup behind \<^verbatim>\<open>viper.Get\<close>, for a
  key without delimiter: a bound flag that was changed, the environment (when
  \<^verbatim>\<open>AutomaticEnv\<close> is on), the configuration file, the default of a bound flag.
  The program sets no overrides, aliases, key/value stores or \<^verbatim>\<open>SetDefault\<close>
  values.
\<close>

definition flagLayer :: "viper \<Rightarrow> world \<Rightarrow> string \<Rightarrow> raw option" where
  "flagLayer v w k =
     (case map_of (pflags v) k of
        Some f \<Rightarrow> if HasChanged (args w) f then Some (flagValue (args w) f) else None
      | None \<Rightarrow> None)"

definition envLayer :: "viper \<Rightarrow> world \<Rightarrow> string \<Rightarrow> raw option" where
  "envLayer v w k =
     (if automaticEnvApplied v then map_option VStr (getEnv v (environ w) k) else None)"

definition fileLayer :: "viper \<Rightarrow> string \<Rightarrow> raw option" where
  "fileLayer v k = map_of (config v) k"

definition defaultLayer :: "viper \<Rightarrow> world \<Rightarrow> string \<Rightarrow> raw option" where
  "defaultLayer v w k = map_option (flagValue (args w)) (map_of (pflags v) k)"

text \<open>
  \<^verbatim>\<open>viper.Get\<close> lower-cases the key (\<^verbatim>\<open>strings.ToLower\<close>) and takes the
  first layer that holds a value.
\<close>

definition findv :: "viper \<Rightarrow> world \<Rightarrow> string \<Rightarrow> raw option" where
  "findv v w key =
     (let k = lowerKey (unicodeLower w) key in
      case flagLayer v w k of
        Some r \<Rightarrow> Some r
      | None \<Rightarrow>
         (case envLayer v w k of
            Some r \<Rightarrow> Some r
          | None \<Rightarrow>
             (case fileLayer v k of
                Some r \<Rightarrow> Some r
              | None \<Rightarrow> defaultLayer v w k)))"

text \<open>
  \<^verbatim>\<open>AllKeys\<close> holds the bound flags and the keys of the configuration file; a key
  that only the environment knows is not in it.  \<^verbatim>\<open>AllSettings\<close> maps every such
  key to its \<^verbatim>\<open>Get\<close> value.
\<close>

definition inAllKeys :: "viper \<Rightarrow> string \<Rightarrow> bool" where
  "inAllKeys v k = (k \<in> set (map fst (pflags v)) \<or> k \<in> set (map fst (config v)))"

definition AllSettings :: "viper \<Rightarrow> world \<Rightarrow> string \<rightharpoonup> raw" where
  "AllSettings v w k = (if inAllKeys v k then findv v w k else None)"

text \<open>The extensions \<^verbatim>\<open>viper.SupportedExts\<close> that the file search tries, in order.\<close>

definition SupportedExts :: "string list" where
  "SupportedExts = [''json'', ''toml'', ''yaml'', ''yml'', ''properties'', ''props'', ''prop'',
                    ''hcl'', ''tfvars'', ''dotenv'', ''env'', ''ini'']"

definition searchInPath :: "(string \<rightharpoonup> conffile) \<Rightarrow> viper \<Rightarrow> string \<Rightarrow> string option" where
  "searchInPath fs v dir =
     (case find (\<lambda>p. fs p \<noteq> None)
                (map (\<lambda>ext. dir @ ''/'' @ configName v @ ''.'' @ ext) SupportedExts) of
        Some p \<Rightarrow> Some p
      | None \<Rightarrow>
          if configType v \<noteq> [] \<and> fs (dir @ ''/'' @ configName v) \<noteq> None
          then Some (dir @ ''/'' @ configName v) else None)"

fun findConfigFile :: "(string \<rightharpoonup> conffile) \<Rightarrow> viper \<Rightarrow> string list \<Rightarrow> string option" where
  "findConfigFile fs v [] = None"
| "findConfigFile fs v (d # ds) =
     (case searchInPath fs v d of Some p \<Rightarrow> Some p | None \<Rightarrow> findConfigFile fs v ds)"

definition getConfigFile :: "(string \<rightharpoonup> conffile) \<Rightarrow> viper \<Rightarrow> string option" where
  "getConfigFile fs v =
     (if configFile v = [] then findConfigFile fs v (configPaths v) else Some (configFile v))"

text \<open>
  Keys of a document that was read are lower-cased with \<^verbatim>\<open>strings.ToLower\<close> (viper
  keys are case-insensitive).
\<close>

definition insensitivise :: "(string \<Rightarrow> string) \<Rightarrow> (string \<times> raw) list \<Rightarrow> (string \<times> raw) list" where
  "insensitivise u d = map (\<lambda>(k, r). (lowerKey u k, r)) d"

text \<open>
  \<^verbatim>\<open>ReadInConfig\<close>: whether it returned without error, and the registry afterwards.
  On any error the registry's document stays as it was.
\<close>

definition ReadInConfig ::
  "(string \<Rightarrow> string) \<Rightarrow> (string \<rightharpoonup> conffile) \<Rightarrow> viper \<Rightarrow> bool \<times> viper" where
  "ReadInConfig u fs v =
     (case getConfigFile fs v of
        None \<Rightarrow> (False, v)
      | Some p \<Rightarrow>
          (case fs p of
             None \<Rightarrow> (False, v\<lparr>configFile := p\<rparr>)
           | Some Malformed \<Rightarrow> (False, v\<lparr>configFile := p\<rparr>)
           | Some (Parsed d) \<Rightarrow> (True, v\<lparr>configFile := p, config := insensitivise u d\<rparr>)))"

definition ConfigFileUsed :: "viper \<Rightarrow> string" where
  "ConfigFileUsed v = configFile v"

section \<open>Decoding into the typed record (\<^verbatim>\<open>viper.Unmarshal\<close>)\<close>

text \<open>
  \<^verbatim>\<open>strconv.ParseInt(s, 0, 64)\<close> and \<^verbatim>\<open>time.ParseDuration\<close> (in
  nanoseconds) are parameters of the model; \<open>None\<close> is their error.
\<close>

record lib =
  parseInt :: "string \<Rightarrow> int option"
  parseDuration :: "string \<Rightarrow> int option"

definition ParseBool :: "string \<Rightarrow> bool option" where
  "ParseBool s =
     (if s \<in> set [''1'', ''t'', ''T'', ''TRUE'', ''true'', ''True''] then Some True
      else if s \<in> set [''0'', ''f'', ''F'', ''FALSE'', ''false'', ''False''] then Some False
      else None)"

function nat_digits :: "nat \<Rightarrow> string" where
  "nat_digits n =
     (if n < 10 then [''0123456789'' ! n]
      else nat_digits (n div 10) @ [''0123456789'' ! (n mod 10)])"
  by pat_completeness auto
termination
  by (relation "measure id") auto

definition FormatInt :: "int \<Rightarrow> string" where
  "FormatInt i = (if i < 0 then CHR ''-'' # nat_digits (nat (- i)) else nat_digits (nat i))"

text \<open>
  The decoder viper configures: weakly typed input, with the hooks
  \<^verbatim>\<open>StringToTimeDurationHookFunc\<close> and \<^verbatim>\<open>StringToSliceHookFunc(",")\<close>.
  \<open>None\<close> is a decoding error.
\<close>

definition decodeInt :: "lib \<Rightarrow> raw \<Rightarrow> int option" where
  "decodeInt l r =
     (case r of
        VInt i \<Rightarrow> Some i
      | VBool b \<Rightarrow> Some (if b then 1 else 0)
      | VStr s \<Rightarrow> parseInt l (if s = [] then ''0'' else s)
      | VStrs xs \<Rightarrow> None)"

definition decodeDuration :: "lib \<Rightarrow> raw \<Rightarrow> int option" where
  "decodeDuration l r = (case r of VStr s \<Rightarrow> parseDuration l s | _ \<Rightarrow> decodeInt l r)"

definition decodeBool :: "raw \<Rightarrow> bool option" where
  "decodeBool r =
     (case r of
        VBool b \<Rightarrow> Some b
      | VInt i \<Rightarrow> Some (i \<noteq> 0)
      | VStr s \<Rightarrow> (if s = [] then Some False else ParseBool s)
      | VStrs xs \<Rightarrow> None)"

definition decodeString :: "raw \<Rightarrow> string option" where
  "decodeString r =
     (case r of
        VStr s \<Rightarrow> Some s
      | VBool b \<Rightarrow> Some (if b then ''1'' else ''0'')
      | VInt i \<Rightarrow> Some (FormatInt i)
      | VStrs xs \<Rightarrow> None)"

definition decodeSlice :: "raw \<Rightarrow> string list option" where
  "decodeSlice r =
     (case r of
        VStrs xs \<Rightarrow> Some xs
      | VStr s \<Rightarrow> Some (if s = [] then [] else Split s (CHR '',''))
      | _ \<Rightarrow> map_option (\<lambda>x. [x]) (decodeString r))"

definition decodes :: "lib \<Rightarrow> ftype \<Rightarrow> raw \<Rightarrow> bool" where
  "decodes l t r =
     (case t of
        TInt \<Rightarrow> decodeInt l r \<noteq> None
      | TDuration \<Rightarrow> decodeDuration l r \<noteq> None
      | TBool \<Rightarrow> decodeBool r \<noteq> None
      | TString \<Rightarrow> decodeString r \<noteq> None
      | TStringSlice \<Rightarrow> decodeSlice r \<noteq> None)"

record Config =
  MemorySize :: int
  UpdateInterval :: int
  LogBuffer :: int
  TestMode :: bool
  ConfigFile :: string
  AIModel :: string
  Files :: "string list"
  Follow :: bool
  OTLPEnabled :: bool
  OTLPGRPCPort :: int
  OTLPHTTPPort :: int
  VmlogsURL :: string
  VmlogsUser :: string
  VmlogsPassword :: string
  VmlogsQuery :: string
  Skin :: string
  StopWords :: "string list"
  Format :: string
  DisableVersionCheck :: bool
  ReverseScrollWheel :: bool

text \<open>
  One field of the record: the decoded value of its key, or the zero value of its type
  when the settings do not hold the key (or the value does not decode).
\<close>

definition intField :: "lib \<Rightarrow> (string \<rightharpoonup> raw) \<Rightarrow> string \<Rightarrow> int" where
  "intField l s k = (case Option.bind (s k) (decodeInt l) of Some i \<Rightarrow> i | None \<Rightarrow> 0)"

definition durField :: "lib \<Rightarrow> (string \<rightharpoonup> raw) \<Rightarrow> string \<Rightarrow> int" where
  "durField l s k = (case Option.bind (s k) (decodeDuration l) of Some i \<Rightarrow> i | None \<Rightarrow> 0)"

definition boolField :: "(string \<rightharpoonup> raw) \<Rightarrow> string \<Rightarrow> bool" where
  "boolField s k = (case Option.bind (s k) decodeBool of Some b \<Rightarrow> b | None \<Rightarrow> False)"

definition strField :: "(string \<rightharpoonup> raw) \<Rightarrow> string \<Rightarrow> string" where
  "strField s k = (case Option.bind (s k) decodeString of Some x \<Rightarrow> x | None \<Rightarrow> [])"

definition sliceField :: "(string \<rightharpoonup> raw) \<Rightarrow> string \<Rightarrow> string list" where
  "sliceField s k = (case Option.bind (s k) decodeSlice of Some xs \<Rightarrow> xs | None \<Rightarrow> [])"

definition fill :: "lib \<Rightarrow> (string \<rightharpoonup> raw) \<Rightarrow> Config" where
  "fill l s =
    \<lparr>MemorySize = intField l s ''memory-size'',
     UpdateInterval = durField l s ''update-interval'',
     LogBuffer = intField l s ''log-buffer'',
     TestMode = boolField s ''test-mode'',
     ConfigFile = strField s ''config'',
     AIModel = strField s ''ai-model'',
     Files = sliceField s ''files'',
     Follow = boolField s ''follow'',
     OTLPEnabled = boolField s ''otlp-enabled'',
     OTLPGRPCPort = intField l s ''otlp-grpc-port'',
     OTLPHTTPPort = intField l s ''otlp-http-port'',
     VmlogsURL = strField s ''vmlogs-url'',
     VmlogsUser = strField s ''vmlogs-user'',
     VmlogsPassword = strField s ''vmlogs-password'',
     VmlogsQuery = strField s ''vmlogs-query'',
     Skin = strField s ''skin'',
     StopWords = sliceField s ''stop-words'',
     Format = strField s ''format'',
     DisableVersionCheck = boolField s ''disable-version-check'',
     ReverseScrollWheel = boolField s ''reverse-scroll-wheel''\<rparr>"

definition fieldFails :: "lib \<Rightarrow> (string \<rightharpoonup> raw) \<Rightarrow> string \<times> ftype \<Rightarrow> bool" where
  "fieldFails l s kt = (case s (fst kt) of None \<Rightarrow> False | Some r \<Rightarrow> \<not> decodes l (snd kt) r)"

text \<open>
  \<^verbatim>\<open>Unmarshal\<close>: the keys that failed to decode, or the record.  Keys of the settings
  that no field is tagged with are not looked at.
\<close>

definition Unmarshal :: "lib \<Rightarrow> (string \<rightharpoonup> raw) \<Rightarrow> string list + Config" where
  "Unmarshal l s =
     (let errs = filter (fieldFails l s) config_fields
      in if errs = [] then Inr (fill l s) else Inl (map fst errs))"

section \<open>The program: \<^verbatim>\<open>init\<close>, \<^verbatim>\<open>initConfig\<close>, \<^verbatim>\<open>main\<close>\<close>

text \<open>The registry after \<^verbatim>\<open>init()\<close>: the bindings of lines 163-181.\<close>

definition init :: viper where
  "init = foldl (\<lambda>v (key, name). BindPFlag key (Lookup name) v) New bindings"

text \<open>Lines 188-202: where the configuration file is looked for, and what is logged.\<close>

definition locateConfig :: "world \<Rightarrow> viper \<Rightarrow> string list \<times> viper" where
  "locateConfig w v =
     (if cfgFile (args w) \<noteq> [] then ([], SetConfigFile (cfgFile (args w)) v)
      else (case home w of
              None \<Rightarrow> ([''Error finding home directory''], v)
            | Some h \<Rightarrow>
                ([], SetConfigName ''config'' (SetConfigType ''yaml''
                       (AddConfigPath (h @ ''/.config/gonzo'') v)))))"

text \<open>Lines 205-207.\<close>

definition setupEnv :: "viper \<Rightarrow> viper" where
  "setupEnv v = SetEnvKeyReplacer (CHR ''-'', CHR ''_'') (AutomaticEnv (SetEnvPrefix ''GONZO'' v))"

text \<open>
  The registry when \<^verbatim>\<open>Unmarshal\<close> is called (line 215), and the log up to there.
\<close>

definition loaded :: "world \<Rightarrow> string list \<times> viper" where
  "loaded w =
     (let (log1, v1) = locateConfig w init;
          (ok, v2) = ReadInConfig (unicodeLower w) (files w) (setupEnv v1)
      in (if ok then log1 @ [''Using config file: '' @ ConfigFileUsed v2] else log1, v2))"

text \<open>
  \<^verbatim>\<open>initConfig\<close>: the log, and either the exit status of \<^verbatim>\<open>log.Fatalf\<close> or
  the configuration left in \<^verbatim>\<open>cfg\<close>.
\<close>

definition initConfig :: "lib \<Rightarrow> world \<Rightarrow> string list \<times> (nat + Config)" where
  "initConfig l w =
     (let (lg, v) = loaded w in
      case Unmarshal l (AllSettings v w) of
        Inl errs \<Rightarrow> (lg @ [''Unable to decode config''], Inl 1)
      | Inr c \<Rightarrow> (lg, Inr c))"

text \<open>
  The resolved, still untyped value of a key: \<^verbatim>\<open>viper.Get(key)\<close> after
  \<^verbatim>\<open>initConfig\<close> has set the registry up.
\<close>

definition resolved :: "world \<Rightarrow> string \<Rightarrow> raw option" where
  "resolved w key = findv (snd (loaded w)) w key"

text \<open>
  The process: \<^verbatim>\<open>Exit n\<close> when start-up ends the process with status \<open>n\<close>,
  \<open>RunApp c\<close> when \<^verbatim>\<open>runApp\<close> is entered with the configuration \<open>c\<close>.
\<close>

datatype outcome = Exit nat | RunApp Config

definition main :: "lib \<Rightarrow> world \<Rightarrow> outcome" where
  "main l w = (case snd (initConfig l w) of Inl n \<Rightarrow> Exit n | Inr c \<Rightarrow> RunApp c)"

section \<open>Sample runs\<close>

text \<open>
  The sample documents have ASCII keys only, so the Unicode tables are never consulted;
  the samples take the identity for them.
\<close>

text \<open>A process started with no flags, an empty environment and no home directory.\<close>

definition bareWorld :: world where
  "bareWorld = \<lparr>args = \<lparr>scalars = Map.empty, slices = Map.empty\<rparr>, environ = Map.empty,
                home = None, files = Map.empty, unicodeLower = (\<lambda>k. k)\<rparr>"

section \<open>The precedence order in the words of the specification\<close>

text \<open>The first present value of a list of optional values, highest precedence first.\<close>

fun first_present :: "'a option list \<Rightarrow> 'a option" where
  "first_present [] = None"
| "first_present (Some x # xs) = Some x"
| "first_present (None # xs) = first_present xs"

text \<open>What each source holds for a key, read off the world.\<close>

definition supplied :: "cmdline \<Rightarrow> flag \<Rightarrow> raw option" where
  "supplied c f =
     (case ftyp f of
        TStringSlice \<Rightarrow> map_option (\<lambda>xs. VStrs (readBack xs)) (slices c (fname f))
      | _ \<Rightarrow> map_option VStr (scalars c (fname f)))"

definition envVar :: "world \<Rightarrow> string \<Rightarrow> string option" where
  "envVar w k = environ w (''GONZO_'' @ Replace (CHR ''-'', CHR ''_'') (ToUpper k))"

definition fileValue :: "world \<Rightarrow> string \<Rightarrow> raw option" where
  "fileValue w k = map_of (config (snd (loaded w))) k"

text \<open>
  The specification's merge for a key bound to the flag \<open>f\<close>: flag if supplied, then
  the environment variable if set, then the file, then the flag's built-in default.
\<close>

definition spec_resolve :: "world \<Rightarrow> string \<Rightarrow> flag \<Rightarrow> raw option" where
  "spec_resolve w k f =
     first_present [supplied (args w) f, map_option VStr (envVar w k), fileValue w k,
                    Some (fdefault f)]"

text \<open>The same merge, with an environment variable set to the empty string left out.\<close>

definition nonempty :: "string option \<Rightarrow> string option" where
  "nonempty so = (case so of Some s \<Rightarrow> if s \<noteq> [] then Some s else None | None \<Rightarrow> None)"

definition merge_resolve :: "world \<Rightarrow> string \<Rightarrow> flag \<Rightarrow> raw option" where
  "merge_resolve w k f =
     first_present [supplied (args w) f, map_option VStr (nonempty (envVar w k)), fileValue w k,
                    Some (fdefault f)]"

text \<open>
  \<^verbatim>\<open>GONZO_SKIN\<close> is set to the empty string and the file given by
  \<^verbatim>\<open>--config\<close> holds \<^verbatim>\<open>skin: dracula\<close>.
\<close>

definition emptyEnvWorld :: world where
  "emptyEnvWorld =
     \<lparr>args = \<lparr>scalars = [''config'' \<mapsto> ''/etc/gonzo.yml''], slices = Map.empty\<rparr>,
      environ = [''GONZO_SKIN'' \<mapsto> []],
      home = Some ''/home/u'',
      files = [''/etc/gonzo.yml'' \<mapsto> Parsed [(''skin'', VStr ''dracula'')]],
      unicodeLower = (\<lambda>k. k)\<rparr>"

text \<open>
  The specification's example: \<^verbatim>\<open>--memory-size=5000\<close>,
  \<^verbatim>\<open>GONZO_MEMORY_SIZE=8000\<close>, and \<^verbatim>\<open>memory-size: 2000\<close> in the file
  found under the home directory.
\<close>

definition layeredWorld :: world where
  "layeredWorld =
     \<lparr>args = \<lparr>scalars = [''memory-size'' \<mapsto> ''5000''], slices = Map.empty\<rparr>,
      environ = [''GONZO_MEMORY_SIZE'' \<mapsto> ''8000'', ''GONZO_LOG_BUFFER'' \<mapsto> ''300''],
      home = Some ''/home/u'',
      files = [''/home/u/.config/gonzo/config.yml'' \<mapsto>
                 Parsed [(''memory-size'', VInt 2000), (''log-buffer'', VInt 70),
                         (''skin'', VStr ''dracula'')]],
      unicodeLower = (\<lambda>k. k)\<rparr>"

text \<open>
  The file under the home directory exists but does not parse; \<^verbatim>\<open>GONZO_SKIN\<close> is
  set.
\<close>

definition malformedWorld :: world where
  "malformedWorld =
     \<lparr>args = \<lparr>scalars = Map.empty, slices = Map.empty\<rparr>,
      environ = [''GONZO_SKIN'' \<mapsto> ''mono''],
      home = Some ''/home/u'',
      files = [''/home/u/.config/gonzo/config.yaml'' \<mapsto> Malformed],
      unicodeLower = (\<lambda>k. k)\<rparr>"

text \<open>\<^verbatim>\<open>GONZO_OTLP_GRPC_PORT=notanumber\<close> in the environment, nothing else.\<close>

definition badPortWorld :: world where
  "badPortWorld =
     \<lparr>args = \<lparr>scalars = Map.empty, slices = Map.empty\<rparr>,
      environ = [''GONZO_OTLP_GRPC_PORT'' \<mapsto> ''notanumber''],
      home = None,
      files = Map.empty,
      unicodeLower = (\<lambda>k. k)\<rparr>"



text \<open>
  \<^verbatim>\<open>GONZO_STOP_WORDS=foo,bar,baz\<close> and \<^verbatim>\<open>GONZO_FILES=a.log,b.log,a.log\<close> in the
  environment.
\<close>

definition stopWordsWorld :: world where
  "stopWordsWorld =
     \<lparr>args = \<lparr>scalars = Map.empty, slices = Map.empty\<rparr>,
      environ = [''GONZO_STOP_WORDS'' \<mapsto> ''foo,bar,baz'', ''GONZO_FILES'' \<mapsto> ''a.log,b.log,a.log''],
      home = None,
      files = Map.empty,
      unicodeLower = (\<lambda>k. k)\<rparr>"

text \<open>The configuration of a run in which every setting keeps its built-in default.\<close>

definition defaultConfig :: Config where
  "defaultConfig =
    \<lparr>MemorySize = 10000, UpdateInterval = 1000000000, LogBuffer = 1000, TestMode = False,
     ConfigFile = [], AIModel = [], Files = [], Follow = False, OTLPEnabled = False,
     OTLPGRPCPort = 4317, OTLPHTTPPort = 4318, VmlogsURL = [], VmlogsUser = [],
     VmlogsPassword = [], VmlogsQuery = ''*'', Skin = ''default'', StopWords = [], Format = [],
     DisableVersionCheck = False, ReverseScrollWheel = False\<rparr>"

text \<open>
  The file that \<^verbatim>\<open>ReadInConfig\<close> reads at line 210, if it settles on one.
\<close>

definition locatedFile :: "world \<Rightarrow> string option" where
  "locatedFile w = getConfigFile (files w) (setupEnv (snd (locateConfig w init)))"

text \<open>
  For sample runs: the decimal fragment of \<^verbatim>\<open>strconv.ParseInt\<close> (an optional
  minus sign and digits) and the whole-seconds fragment of
  \<^verbatim>\<open>time.ParseDuration\<close> (digits followed by \<^verbatim>\<open>s\<close>).
\<close>

definition digit_value :: "char \<Rightarrow> nat option" where
  "digit_value c = map_of (zip ''0123456789'' [0, 1, 2, 3, 4, 5, 6, 7, 8, 9]) c"

fun digits_value :: "nat \<Rightarrow> string \<Rightarrow> nat option" where
  "digits_value acc [] = Some acc"
| "digits_value acc (c # cs) =
     (case digit_value c of None \<Rightarrow> None | Some d \<Rightarrow> digits_value (10 * acc + d) cs)"

definition parse_decimal :: "string \<Rightarrow> int option" where
  "parse_decimal s =
     (case s of
        [] \<Rightarrow> None
      | c # cs \<Rightarrow>
          if c = CHR ''-'' then (if cs = [] then None else map_option (\<lambda>n. - int n) (digits_value 0 cs))
          else map_option int (digits_value 0 s))"

definition parse_seconds :: "string \<Rightarrow> int option" where
  "parse_seconds s =
     (if s \<noteq> [] \<and> last s = CHR ''s'' \<and> butlast s \<noteq> []
      then map_option (\<lambda>n. int n * 1000000000) (digits_value 0 (butlast s))
      else None)"

definition sampleLib :: lib where
  "sampleLib = \<lparr>parseInt = parse_decimal, parseDuration = parse_seconds\<rparr>"

text \<open>
  Two optional values that a field of type \<open>ty\<close> cannot tell apart: both absent, or
  both present and decoding alike.
\<close>

definition sameDecode :: "lib \<Rightarrow> ftype \<Rightarrow> raw option \<Rightarrow> raw option \<Rightarrow> bool" where
  "sameDecode l ty a b =
     (case (a, b) of
        (None, None) \<Rightarrow> True
      | (Some r, Some r') \<Rightarrow>
          (case ty of
             TInt \<Rightarrow> decodeInt l r = decodeInt l r'
           | TDuration \<Rightarrow> decodeDuration l r = decodeDuration l r'
           | TBool \<Rightarrow> decodeBool r = decodeBool r'
           | TString \<Rightarrow> decodeString r = decodeString r'
           | TStringSlice \<Rightarrow> decodeSlice r = decodeSlice r')
      | _ \<Rightarrow> False)"

section \<open>Setting a key through the environment or through its flag\<close>

text \<open>The world with the environment variable of the key \<open>k\<close> set to \<open>val\<close>.\<close>

definition setEnv :: "world \<Rightarrow> string \<Rightarrow> string \<Rightarrow> world" where
  "setEnv w k val =
     w\<lparr>environ := (environ w)(''GONZO_'' @ Replace (CHR ''-'', CHR ''_'') (ToUpper k) \<mapsto> val)\<rparr>"

text \<open>
  The world with one more occurrence of the flag \<open>f\<close> on the command line, with the
  text \<open>val\<close>.  A scalar flag then holds the text.  A string-slice flag reads the text
  with \<^verbatim>\<open>readAsCSV\<close>: the elements replace the default at the first occurrence
  and are appended at a later one; when the text does not parse, cobra rejects the
  command line (\<open>None\<close>).
\<close>

definition setFlag :: "world \<Rightarrow> flag \<Rightarrow> string \<Rightarrow> world option" where
  "setFlag w f val =
     (case ftyp f of
        TStringSlice \<Rightarrow>
          (case readAsCSV val of
             None \<Rightarrow> None
           | Some xs \<Rightarrow>
               Some (w\<lparr>args := (args w)\<lparr>slices := (slices (args w))(fname f \<mapsto>
                       (case slices (args w) (fname f) of None \<Rightarrow> xs | Some old \<Rightarrow> old @ xs))\<rparr>\<rparr>))
      | _ \<Rightarrow> Some (w\<lparr>args := (args w)\<lparr>scalars := (scalars (args w))(fname f \<mapsto> val)\<rparr>\<rparr>))"

text \<open>
  \<^verbatim>\<open>main\<close> (lines 220-225) for a command line that cobra may reject:
  \<^verbatim>\<open>Execute\<close> then returns the error and the process exits with status 1.
\<close>

definition mainParsed :: "lib \<Rightarrow> world option \<Rightarrow> outcome" where
  "mainParsed l wo = (case wo of None \<Rightarrow> Exit 1 | Some w \<Rightarrow> main l w)"

text \<open>
  No flags, no environment; the file \<^verbatim>\<open>/etc/gonzo.yml\<close> holds
  \<^verbatim>\<open>skin: dracula\<close>.
\<close>

definition skinFileWorld :: world where
  "skinFileWorld =
     \<lparr>args = \<lparr>scalars = Map.empty, slices = Map.empty\<rparr>,
      environ = Map.empty,
      home = None,
      files = [''/etc/gonzo.yml'' \<mapsto> Parsed [(''skin'', VStr ''dracula'')]],
      unicodeLower = (\<lambda>k. k)\<rparr>"

text \<open>\<^verbatim>\<open>--stop-words=foo,bar,baz\<close> on the command line, nothing else.\<close>

definition flagListWorld :: world where
  "flagListWorld =
     bareWorld\<lparr>args := \<lparr>scalars = Map.empty,
                       slices = [''stop-words'' \<mapsto> [''foo'', ''bar'', ''baz'']]\<rparr>\<rparr>"

section \<open>Facts about the registry that \<^verbatim>\<open>initConfig\<close> builds\<close>

lemmas char_tables = upper_char_def lower_char_def lower_letters_def upper_letters_def

lemma pflags_init:
  "pflags init = map (\<lambda>(key, name). (key, the (Lookup name))) bindings"
  by (simp add: init_def bindings_def BindPFlag_def Lookup_def rootFlags_def mkflag_def New_def
      ToLower_def char_tables)

lemma setters_keep_pflags:
  "pflags (SetConfigFile p v) = pflags v"
  "pflags (AddConfigPath p v) = pflags v"
  "pflags (SetConfigType p v) = pflags v"
  "pflags (SetConfigName p v) = pflags v"
  by (simp_all add: SetConfigFile_def AddConfigPath_def SetConfigType_def SetConfigName_def)

lemma ReadInConfig_keeps:
  "pflags (snd (ReadInConfig u fs v)) = pflags v"
  "envPrefix (snd (ReadInConfig u fs v)) = envPrefix v"
  "automaticEnvApplied (snd (ReadInConfig u fs v)) = automaticEnvApplied v"
  "envKeyReplacer (snd (ReadInConfig u fs v)) = envKeyReplacer v"
  by (simp_all add: ReadInConfig_def split: option.splits conffile.splits)

lemma snd_loaded:
  "snd (loaded w) = snd (ReadInConfig (unicodeLower w) (files w) (setupEnv (snd (locateConfig w init))))"
  by (simp add: loaded_def split: prod.splits)

lemma setupEnv_fields:
  "envPrefix (setupEnv v) = ''GONZO''"
  "automaticEnvApplied (setupEnv v)"
  "envKeyReplacer (setupEnv v) = Some (CHR ''-'', CHR ''_'')"
  "pflags (setupEnv v) = pflags v"
  "config (setupEnv v) = config v"
  "configFile (setupEnv v) = configFile v"
  "configPaths (setupEnv v) = configPaths v"
  "configName (setupEnv v) = configName v"
  "configType (setupEnv v) = configType v"
  by (simp_all add: setupEnv_def SetEnvPrefix_def AutomaticEnv_def SetEnvKeyReplacer_def)

lemma locate_pflags: "pflags (snd (locateConfig w v)) = pflags v"
  by (simp add: locateConfig_def setters_keep_pflags split: option.splits)

lemma loaded_fields:
  "envPrefix (snd (loaded w)) = ''GONZO''"
  "automaticEnvApplied (snd (loaded w))"
  "envKeyReplacer (snd (loaded w)) = Some (CHR ''-'', CHR ''_'')"
  "pflags (snd (loaded w)) = pflags init"
  by (simp_all add: snd_loaded ReadInConfig_keeps setupEnv_fields locate_pflags)

lemma envName_loaded:
  "envName (snd (loaded w)) k = ''GONZO_'' @ Replace (CHR ''-'', CHR ''_'') (ToUpper k)"
  by (simp add: envName_def mergeWithEnvPrefix_def loaded_fields ToUpper_def Replace_def
      char_tables)

lemma env_names_distinct:
  "distinct (map (\<lambda>k. Replace (CHR ''-'', CHR ''_'') (ToUpper k)) (map fst config_fields))"
  by (simp add: config_fields_def ToUpper_def Replace_def char_tables)

lemma setting_keys_fields: "set setting_keys \<subseteq> set (map fst config_fields)"
  by (simp add: setting_keys_def bindings_def config_fields_def)

lemma env_names_inj:
  "inj_on (\<lambda>k. Replace (CHR ''-'', CHR ''_'') (ToUpper k)) (set (map fst config_fields))"
  using env_names_distinct by (simp only: distinct_map)

section \<open>The name transformation\<close>

text \<open>
  C2.  Whatever the command line, environment and file system are, the environment
  variable that the registry consults for a key is the fixed prefix \<^verbatim>\<open>GONZO_\<close>
  followed by the key in upper case with every hyphen replaced by an underscore, and by
  nothing else; the key \<^verbatim>\<open>vmlogs-user\<close> is looked up as
  \<^verbatim>\<open>GONZO_VMLOGS_USER\<close>.  The equation holds for every key, so for every
  declared one.
\<close>

theorem env_name_is_prefixed_upper_underscore:
  "envName (snd (loaded w)) k = ''GONZO_'' @ Replace (CHR ''-'', CHR ''_'') (ToUpper k)
   \<and> envName (snd (loaded w)) ''vmlogs-user'' = ''GONZO_VMLOGS_USER''
   \<and> getEnv (snd (loaded w)) (environ w) ''vmlogs-user''
       = (case environ w ''GONZO_VMLOGS_USER'' of
            Some val \<Rightarrow> if val \<noteq> [] then Some val else None | None \<Rightarrow> None)"
  by (simp add: getEnv_def envName_loaded ToUpper_def Replace_def char_tables)

text \<open>
  C8.  Two distinct declared setting keys never share their environment variable name.
\<close>

theorem env_name_injective_on_setting_keys:
  assumes "k1 \<in> set setting_keys" and "k2 \<in> set setting_keys" and "k1 \<noteq> k2"
  shows "envName (snd (loaded w)) k1 \<noteq> envName (snd (loaded w)) k2"
proof -
  from assms(1,2) setting_keys_fields
  have "k1 \<in> set (map fst config_fields)" and "k2 \<in> set (map fst config_fields)"
    by blast+
  with env_names_inj assms(3)
  have "Replace (CHR ''-'', CHR ''_'') (ToUpper k1) \<noteq> Replace (CHR ''-'', CHR ''_'') (ToUpper k2)"
    by (auto dest: inj_onD)
  then show ?thesis
    by (simp add: envName_loaded)
qed

theorem env_name_injective_witness:
  "''otlp-grpc-port'' \<in> set setting_keys \<and> ''otlp-http-port'' \<in> set setting_keys
   \<and> ''otlp-grpc-port'' \<noteq> ''otlp-http-port''
   \<and> envName (snd (loaded bareWorld)) ''otlp-grpc-port''
       \<noteq> envName (snd (loaded bareWorld)) ''otlp-http-port''"
proof -
  have a: "''otlp-grpc-port'' \<in> set setting_keys" and b: "''otlp-http-port'' \<in> set setting_keys"
    by (simp_all add: setting_keys_def bindings_def)
  have c: "''otlp-grpc-port'' \<noteq> ''otlp-http-port''"
    by simp
  from env_name_injective_on_setting_keys [OF a b c, of bareWorld] a b c show ?thesis
    by simp
qed

section \<open>The precedence merge\<close>

lemma bindings_keys_distinct: "distinct (map fst bindings)"
  by (simp add: bindings_def)

lemma bindings_lookup: "(k, n) \<in> set bindings \<Longrightarrow> \<exists>f. Lookup n = Some f \<and> fname f = n"
  by (auto simp: bindings_def Lookup_def rootFlags_def mkflag_def)

lemma setting_keys_lower: "(k, n) \<in> set bindings \<Longrightarrow> ToLower k = k"
  by (auto simp: bindings_def ToLower_def char_tables)

lemma lowerKey_bound: "(k, n) \<in> set bindings \<Longrightarrow> lowerKey u k = k"
  by (auto simp: bindings_def lowerKey_def isASCII_def ToLower_def char_tables)

lemma bound_flag:
  assumes "(k, n) \<in> set bindings" and "Lookup n = Some f"
  shows "map_of (pflags init) k = Some f"
proof -
  have "map_of (map (\<lambda>(key, name). (key, the (Lookup name))) bindings) k = Some (the (Lookup n))"
  proof (rule map_of_is_SomeI)
    show "distinct (map fst (map (\<lambda>(key, name). (key, the (Lookup name))) bindings))"
      using bindings_keys_distinct by (simp add: comp_def case_prod_unfold)
    show "(k, the (Lookup n)) \<in> set (map (\<lambda>(key, name). (key, the (Lookup name))) bindings)"
      using assms(1) by force
  qed
  with assms(2) show ?thesis
    by (simp add: pflags_init)
qed

lemma supplied_eq:
  "supplied c f = (if HasChanged c f then Some (flagValue c f) else None)"
  by (cases "ftyp f") (auto simp: supplied_def HasChanged_def flagValue_def)

lemma flagValue_unsupplied: "supplied c f = None \<Longrightarrow> flagValue c f = fdefault f"
  by (cases "ftyp f") (auto simp: supplied_def flagValue_def)

lemma envLayer_loaded:
  "envLayer (snd (loaded w)) w k = map_option VStr (nonempty (envVar w k))"
  by (simp add: envLayer_def loaded_fields getEnv_def envName_loaded envVar_def nonempty_def)

lemma resolved_bound:
  assumes "(k, n) \<in> set bindings" and "Lookup n = Some f"
  shows "resolved w k = merge_resolve w k f"
proof -
  let ?v = "snd (loaded w)"
  have b: "map_of (pflags ?v) k = Some f"
    using bound_flag [OF assms] by (simp add: loaded_fields)
  show ?thesis
  proof (cases "supplied (args w) f")
    case (Some r)
    then show ?thesis
      using b by (simp add: resolved_def findv_def lowerKey_bound [OF assms(1)] flagLayer_def
          merge_resolve_def supplied_eq split: if_splits)
  next
    case None
    then have fl: "flagLayer ?v w k = None"
      using b by (simp add: flagLayer_def supplied_eq split: if_splits)
    have d: "defaultLayer ?v w k = Some (fdefault f)"
      using b None by (simp add: defaultLayer_def flagValue_unsupplied)
    show ?thesis
      using None fl d envLayer_loaded [of w k]
      by (cases "nonempty (envVar w k)"; cases "fileValue w k")
         (simp_all add: resolved_def findv_def lowerKey_bound [OF assms(1)] merge_resolve_def
          fileLayer_def fileValue_def)
  qed
qed

text \<open>The document in the registry after \<^verbatim>\<open>ReadInConfig\<close>, read off the world.\<close>

lemma init_fields:
  "configFile init = []" "configPaths init = []" "configName init = ''config''"
  "configType init = []" "config init = []"
  by (simp_all add: init_def bindings_def BindPFlag_def Lookup_def rootFlags_def mkflag_def
      New_def)

lemma config_loaded_explicit:
  assumes "cfgFile (args w) \<noteq> []"
  shows "config (snd (loaded w)) =
           (case files w (cfgFile (args w)) of Some (Parsed d) \<Rightarrow> insensitivise (unicodeLower w) d | _ \<Rightarrow> [])"
  using assms
  by (simp add: snd_loaded locateConfig_def SetConfigFile_def ReadInConfig_def getConfigFile_def
      setupEnv_fields init_fields split: option.splits conffile.splits)

lemma config_loaded_nohome:
  assumes "cfgFile (args w) = []" and "home w = None"
  shows "config (snd (loaded w)) = []"
  using assms
  by (simp add: snd_loaded locateConfig_def ReadInConfig_def getConfigFile_def
      setupEnv_fields init_fields)

text \<open>
  C1, as the code has it.  For every key that \<^verbatim>\<open>init\<close> binds, the resolved value
  is the first present value in the order: the flag's value if the flag was supplied on
  the command line, then the environment variable if it is set to a non-empty string,
  then the value of the configuration file, then the flag's built-in default.  A flag
  that was not supplied contributes nothing: the resolved value is then the first present
  of environment, file and default, so the default never shadows an environment or file
  value.
\<close>

theorem resolved_is_first_present:
  assumes "(k, n) \<in> set bindings"
  shows "\<exists>f. Lookup n = Some f
           \<and> resolved w k =
               first_present [supplied (args w) f, map_option VStr (nonempty (envVar w k)),
                              fileValue w k, Some (fdefault f)]
           \<and> (supplied (args w) f = None \<longrightarrow>
                resolved w k =
                  first_present [map_option VStr (nonempty (envVar w k)), fileValue w k,
                                 Some (fdefault f)])"
proof -
  from bindings_lookup [OF assms] obtain f where f: "Lookup n = Some f"
    by blast
  have "resolved w k = merge_resolve w k f"
    by (rule resolved_bound [OF assms f])
  with f show ?thesis
    by (auto simp: merge_resolve_def)
qed

theorem resolved_is_first_present_witness:
  "(''memory-size'', ''memory-size'') \<in> set bindings
   \<and> resolved layeredWorld ''memory-size'' = Some (VStr ''5000'')
   \<and> (''log-buffer'', ''log-buffer'') \<in> set bindings
   \<and> supplied (args layeredWorld) (mkflag ''log-buffer'' TInt (VStr ''1000'')) = None
   \<and> resolved layeredWorld ''log-buffer'' = Some (VStr ''300'')"
proof -
  have m: "(''memory-size'', ''memory-size'') \<in> set bindings"
    and b: "(''log-buffer'', ''log-buffer'') \<in> set bindings"
    by (simp_all add: bindings_def)
  have lm: "Lookup ''memory-size'' = Some (mkflag ''memory-size'' TInt (VStr ''10000''))"
    and lb: "Lookup ''log-buffer'' = Some (mkflag ''log-buffer'' TInt (VStr ''1000''))"
    by (simp_all add: Lookup_def rootFlags_def mkflag_def)
  have sm: "supplied (args layeredWorld) (mkflag ''memory-size'' TInt (VStr ''10000''))
              = Some (VStr ''5000'')"
    and sb: "supplied (args layeredWorld) (mkflag ''log-buffer'' TInt (VStr ''1000'')) = None"
    by (simp_all add: supplied_def layeredWorld_def mkflag_def)
  have eb: "envVar layeredWorld ''log-buffer'' = Some ''300''"
    by (simp add: envVar_def layeredWorld_def ToUpper_def Replace_def char_tables)
  from resolved_is_first_present [OF m, of layeredWorld] lm sm
  have 1: "resolved layeredWorld ''memory-size'' = Some (VStr ''5000'')"
    by auto
  from resolved_is_first_present [OF b, of layeredWorld] lb sb eb
  have 2: "resolved layeredWorld ''log-buffer'' = Some (VStr ''300'')"
    by (auto simp: nonempty_def)
  from m b sb 1 2 show ?thesis
    by simp
qed

text \<open>
  C1 as stated fails for an environment variable that is set, but to the empty string:
  with \<^verbatim>\<open>GONZO_SKIN=\<close> in the environment and \<^verbatim>\<open>skin: dracula\<close> in the
  file, the first present value in the stated order is the (empty) environment value,
  while the program resolves \<^verbatim>\<open>skin\<close> to the file's value.
\<close>

theorem empty_env_var_counterexample:
  "(''skin'', ''skin'') \<in> set bindings
   \<and> Lookup ''skin'' = Some (mkflag ''skin'' TString (VStr ''default''))
   \<and> supplied (args emptyEnvWorld) (mkflag ''skin'' TString (VStr ''default'')) = None
   \<and> envVar emptyEnvWorld ''skin'' = Some []
   \<and> fileValue emptyEnvWorld ''skin'' = Some (VStr ''dracula'')
   \<and> spec_resolve emptyEnvWorld ''skin'' (mkflag ''skin'' TString (VStr ''default''))
       = Some (VStr [])
   \<and> resolved emptyEnvWorld ''skin'' = Some (VStr ''dracula'')"
proof -
  have b: "(''skin'', ''skin'') \<in> set bindings"
    by (simp add: bindings_def)
  have l: "Lookup ''skin'' = Some (mkflag ''skin'' TString (VStr ''default''))"
    by (simp add: Lookup_def rootFlags_def mkflag_def)
  have s: "supplied (args emptyEnvWorld) (mkflag ''skin'' TString (VStr ''default'')) = None"
    by (simp add: supplied_def emptyEnvWorld_def mkflag_def)
  have e: "envVar emptyEnvWorld ''skin'' = Some []"
    by (simp add: envVar_def emptyEnvWorld_def ToUpper_def Replace_def char_tables)
  have c: "cfgFile (args emptyEnvWorld) = ''/etc/gonzo.yml''"
    by (simp add: cfgFile_def emptyEnvWorld_def)
  have "config (snd (loaded emptyEnvWorld)) = [(''skin'', VStr ''dracula'')]"
    by (simp add: config_loaded_explicit c)
       (simp add: emptyEnvWorld_def insensitivise_def lowerKey_def isASCII_def ToLower_def
        char_tables)
  then have f: "fileValue emptyEnvWorld ''skin'' = Some (VStr ''dracula'')"
    by (simp add: fileValue_def)
  have r: "resolved emptyEnvWorld ''skin'' = Some (VStr ''dracula'')"
    by (simp add: resolved_bound [OF b l] merge_resolve_def s e f nonempty_def)
  have sp: "spec_resolve emptyEnvWorld ''skin'' (mkflag ''skin'' TString (VStr ''default''))
              = Some (VStr [])"
    by (simp add: spec_resolve_def s e)
  from b l s e f sp r show ?thesis
    by simp
qed

section \<open>Locating and reading the configuration file\<close>

lemma locate_explicit:
  assumes "cfgFile (args w) \<noteq> []"
  shows "locateConfig w init = ([], init\<lparr>configFile := cfgFile (args w)\<rparr>)"
  using assms by (simp add: locateConfig_def SetConfigFile_def)

lemma locate_home:
  assumes "cfgFile (args w) = []" and "home w = Some h"
  shows "locateConfig w init =
           ([], init\<lparr>configPaths := [h @ ''/.config/gonzo''], configType := ''yaml'',
                      configName := ''config'', configFile := []\<rparr>)"
  using assms
  by (simp add: locateConfig_def AddConfigPath_def SetConfigType_def SetConfigName_def
      init_fields)

lemma locate_nohome:
  assumes "cfgFile (args w) = []" and "home w = None"
  shows "locateConfig w init = ([''Error finding home directory''], init)"
  using assms by (simp add: locateConfig_def)

lemma locatedFile_explicit:
  "cfgFile (args w) \<noteq> [] \<Longrightarrow> locatedFile w = Some (cfgFile (args w))"
  by (simp add: locatedFile_def locate_explicit getConfigFile_def setupEnv_fields)

lemma resolved_without_file:
  assumes "config (snd (loaded w)) = []" and "(k, n) \<in> set bindings"
  shows "\<exists>f. Lookup n = Some f
           \<and> resolved w k =
               first_present [supplied (args w) f, map_option VStr (nonempty (envVar w k)),
                              Some (fdefault f)]"
proof -
  from bindings_lookup [OF assms(2)] obtain f where f: "Lookup n = Some f"
    by blast
  have "fileValue w k = None"
    by (simp add: fileValue_def assms(1))
  with resolved_bound [OF assms(2) f, of w] f show ?thesis
    by (cases "supplied (args w) f"; cases "nonempty (envVar w k)")
       (auto simp: merge_resolve_def)
qed

text \<open>
  C3.  A non-empty \<^verbatim>\<open>--config\<close> path becomes the registry's configuration file as
  it is, and it is the file \<^verbatim>\<open>ReadInConfig\<close> goes for whatever the file system
  holds (nothing is logged).  With no \<^verbatim>\<open>--config\<close> and a home directory \<open>h\<close>,
  the registry searches the one directory \<open>h\<close> + \<^verbatim>\<open>/.config/gonzo\<close> for the
  configuration name \<^verbatim>\<open>config\<close> with type \<^verbatim>\<open>yaml\<close>.  With no
  \<^verbatim>\<open>--config\<close> and no home directory, the failure is logged and nothing else
  happens: no file is located, the registry holds no file values, and every bound key
  resolves from flag, environment and default.
\<close>

theorem config_file_location:
  "(cfgFile (args w) \<noteq> [] \<longrightarrow>
      fst (locateConfig w init) = []
      \<and> configFile (snd (locateConfig w init)) = cfgFile (args w)
      \<and> locatedFile w = Some (cfgFile (args w)))
   \<and> (cfgFile (args w) = [] \<and> home w = Some h \<longrightarrow>
        fst (locateConfig w init) = []
        \<and> configFile (snd (locateConfig w init)) = []
        \<and> configPaths (snd (locateConfig w init)) = [h @ ''/.config/gonzo'']
        \<and> configType (snd (locateConfig w init)) = ''yaml''
        \<and> configName (snd (locateConfig w init)) = ''config'')
   \<and> (cfgFile (args w) = [] \<and> home w = None \<longrightarrow>
        fst (locateConfig w init) = [''Error finding home directory'']
        \<and> snd (locateConfig w init) = init
        \<and> locatedFile w = None
        \<and> fst (loaded w) = [''Error finding home directory'']
        \<and> config (snd (loaded w)) = []
        \<and> (\<forall>(k, n) \<in> set bindings. \<exists>f. Lookup n = Some f
              \<and> resolved w k =
                  first_present [supplied (args w) f, map_option VStr (nonempty (envVar w k)),
                                 Some (fdefault f)]))"
proof (intro conjI impI)
  assume a: "cfgFile (args w) = [] \<and> home w = None"
  then have l: "locateConfig w init = ([''Error finding home directory''], init)"
    by (simp add: locate_nohome)
  show "fst (locateConfig w init) = [''Error finding home directory'']"
    and "snd (locateConfig w init) = init"
    using l by simp_all
  show "locatedFile w = None"
    by (simp add: locatedFile_def l getConfigFile_def setupEnv_fields init_fields)
  show "fst (loaded w) = [''Error finding home directory'']"
    by (simp add: loaded_def l ReadInConfig_def getConfigFile_def setupEnv_fields init_fields)
  show c: "config (snd (loaded w)) = []"
    using a by (simp add: config_loaded_nohome)
  show "\<forall>(k, n) \<in> set bindings. \<exists>f. Lookup n = Some f
              \<and> resolved w k =
                  first_present [supplied (args w) f, map_option VStr (nonempty (envVar w k)),
                                 Some (fdefault f)]"
    using resolved_without_file [OF c] by blast
qed (simp_all add: locate_explicit locate_home locatedFile_explicit)

theorem config_file_location_witness:
  "cfgFile (args emptyEnvWorld) \<noteq> []
   \<and> locatedFile emptyEnvWorld = Some ''/etc/gonzo.yml''
   \<and> locatedFile (emptyEnvWorld\<lparr>files := Map.empty\<rparr>) = Some ''/etc/gonzo.yml''
   \<and> cfgFile (args layeredWorld) = [] \<and> home layeredWorld = Some ''/home/u''
   \<and> configPaths (snd (locateConfig layeredWorld init)) = [''/home/u/.config/gonzo'']
   \<and> configType (snd (locateConfig layeredWorld init)) = ''yaml''
   \<and> configName (snd (locateConfig layeredWorld init)) = ''config''
   \<and> cfgFile (args bareWorld) = [] \<and> home bareWorld = None
   \<and> fst (loaded bareWorld) = [''Error finding home directory'']
   \<and> config (snd (loaded bareWorld)) = []
   \<and> (''skin'', ''skin'') \<in> set bindings
   \<and> resolved bareWorld ''skin'' = Some (VStr ''default'')"
proof -
  have e: "cfgFile (args emptyEnvWorld) = ''/etc/gonzo.yml''"
    and e': "cfgFile (args (emptyEnvWorld\<lparr>files := Map.empty\<rparr>)) = ''/etc/gonzo.yml''"
    by (simp_all add: cfgFile_def emptyEnvWorld_def)
  have l: "cfgFile (args layeredWorld) = []" "home layeredWorld = Some ''/home/u''"
    by (simp_all add: cfgFile_def layeredWorld_def)
  have b: "cfgFile (args bareWorld) = []" "home bareWorld = None"
    by (simp_all add: cfgFile_def bareWorld_def)
  have s: "(''skin'', ''skin'') \<in> set bindings"
    by (simp add: bindings_def)
  have ls: "Lookup ''skin'' = Some (mkflag ''skin'' TString (VStr ''default''))"
    by (simp add: Lookup_def rootFlags_def mkflag_def)
  have sb: "supplied (args bareWorld) (mkflag ''skin'' TString (VStr ''default'')) = None"
    and eb: "envVar bareWorld ''skin'' = None"
    by (simp_all add: supplied_def envVar_def bareWorld_def mkflag_def)
  have 1: "locatedFile emptyEnvWorld = Some ''/etc/gonzo.yml''"
    using config_file_location [of emptyEnvWorld] e by simp
  have 2: "locatedFile (emptyEnvWorld\<lparr>files := Map.empty\<rparr>) = Some ''/etc/gonzo.yml''"
    using config_file_location [of "emptyEnvWorld\<lparr>files := Map.empty\<rparr>"] e' by simp
  have 3: "configPaths (snd (locateConfig layeredWorld init)) = [''/home/u/.config/gonzo'']
           \<and> configType (snd (locateConfig layeredWorld init)) = ''yaml''
           \<and> configName (snd (locateConfig layeredWorld init)) = ''config''"
    using config_file_location [of layeredWorld "''/home/u''"] l by simp
  have 4: "fst (loaded bareWorld) = [''Error finding home directory'']
           \<and> config (snd (loaded bareWorld)) = []"
    using config_file_location [of bareWorld] b by simp
  have "\<exists>f. Lookup ''skin'' = Some f
          \<and> resolved bareWorld ''skin'' =
              first_present [supplied (args bareWorld) f,
                             map_option VStr (nonempty (envVar bareWorld ''skin'')),
                             Some (fdefault f)]"
    using config_file_location [of bareWorld] b s by blast
  then have 5: "resolved bareWorld ''skin'' = Some (VStr ''default'')"
    using ls sb eb by (auto simp: nonempty_def mkflag_def)
  from e l b s 1 2 3 4 5 show ?thesis
    by simp
qed

lemma locate_config_empty: "config (snd (locateConfig w init)) = []"
  by (simp add: locateConfig_def SetConfigFile_def AddConfigPath_def SetConfigType_def
      SetConfigName_def init_fields split: option.splits)

lemma read_failure:
  assumes "case locatedFile w of None \<Rightarrow> True
           | Some p \<Rightarrow> files w p = None \<or> files w p = Some Malformed"
  shows "config (snd (loaded w)) = []" and "fst (loaded w) = fst (locateConfig w init)"
  using assms
  by (auto simp: loaded_def Let_def case_prod_unfold locatedFile_def ReadInConfig_def setupEnv_fields
      locate_config_empty split: option.splits conffile.splits)

lemma AllSettings_cong:
  assumes "pflags v = pflags v'" and "config v = config v'"
    and "automaticEnvApplied v = automaticEnvApplied v'" and "envPrefix v = envPrefix v'"
    and "envKeyReplacer v = envKeyReplacer v'" and "args w = args w'"
    and "environ w = environ w'" and "unicodeLower w = unicodeLower w'"
  shows "AllSettings v w = AllSettings v' w'"
  unfolding AllSettings_def inAllKeys_def findv_def flagLayer_def envLayer_def fileLayer_def
    defaultLayer_def getEnv_def envName_def mergeWithEnvPrefix_def assms
  by (rule refl)

lemma snd_initConfig:
  "snd (initConfig l w) =
     (case Unmarshal l (AllSettings (snd (loaded w)) w) of Inl errs \<Rightarrow> Inl 1 | Inr c \<Rightarrow> Inr c)"
  by (simp add: initConfig_def case_prod_unfold split: sum.splits)

lemma main_eq:
  assumes "AllSettings (snd (loaded w)) w = AllSettings (snd (loaded w')) w'"
  shows "main l w = main l w'"
  using assms by (simp add: main_def snd_initConfig)

lemma locatedFile_no_files:
  "case locatedFile (w\<lparr>files := Map.empty\<rparr>) of None \<Rightarrow> True
   | Some p \<Rightarrow> files (w\<lparr>files := Map.empty\<rparr>) p = None
               \<or> files (w\<lparr>files := Map.empty\<rparr>) p = Some Malformed"
  by (simp split: option.splits)

lemma pflags_init_keys: "map fst (pflags init) = setting_keys"
  by (simp add: pflags_init setting_keys_def case_prod_unfold comp_def)

lemma AllSettings_no_file:
  assumes "config (snd (loaded w)) = []"
  shows "AllSettings (snd (loaded w)) w = (\<lambda>k. if k \<in> set setting_keys then resolved w k else None)"
  by (intro ext)
     (simp add: AllSettings_def inAllKeys_def loaded_fields pflags_init_keys assms resolved_def)

lemma Unmarshal_ok:
  assumes "\<forall>kt \<in> set config_fields. \<not> fieldFails l s kt"
  shows "Unmarshal l s = Inr (fill l s)"
proof -
  have "filter (fieldFails l s) config_fields = []"
    using assms by (simp add: filter_empty_conv del: set_filter)
  then show ?thesis
    by (simp add: Unmarshal_def)
qed

lemma runs_without_file:
  assumes "config (snd (loaded w)) = []"
    and "\<forall>(k, ty) \<in> set config_fields. k \<in> set setting_keys \<longrightarrow>
           (case resolved w k of None \<Rightarrow> True | Some r \<Rightarrow> decodes l ty r)"
  shows "main l w = RunApp (fill l (\<lambda>k. if k \<in> set setting_keys then resolved w k else None))"
proof -
  let ?s = "\<lambda>k. if k \<in> set setting_keys then resolved w k else None"
  have "\<forall>kt \<in> set config_fields. \<not> fieldFails l ?s kt"
    using assms(2) by (auto simp: fieldFails_def split: option.splits)
  then have "Unmarshal l ?s = Inr (fill l ?s)"
    by (rule Unmarshal_ok)
  then show ?thesis
    by (simp add: main_def snd_initConfig AllSettings_no_file [OF assms(1)])
qed

text \<open>
  C4.  When the file that \<^verbatim>\<open>ReadInConfig\<close> goes for is missing (or none is
  found), or exists but fails to parse, the read contributes no values and does not end
  the process: the registry's document is empty, nothing is logged by the read step, the
  process ends exactly as it would with no file at all on the file system, every bound
  key resolves from flag, environment and default, and if each of these resolved values
  decodes into the type of its field, \<^verbatim>\<open>runApp\<close> is entered with the configuration
  made of them.
\<close>

theorem unreadable_file_is_not_fatal:
  assumes "case locatedFile w of None \<Rightarrow> True
           | Some p \<Rightarrow> files w p = None \<or> files w p = Some Malformed"
  shows "config (snd (loaded w)) = []
         \<and> fileValue w key = None
         \<and> fst (loaded w) = fst (locateConfig w init)
         \<and> main l w = main l (w\<lparr>files := Map.empty\<rparr>)
         \<and> (\<forall>(k, n) \<in> set bindings. \<exists>f. Lookup n = Some f
               \<and> resolved w k =
                   first_present [supplied (args w) f, map_option VStr (nonempty (envVar w k)),
                                  Some (fdefault f)])
         \<and> ((\<forall>(k, ty) \<in> set config_fields. k \<in> set setting_keys \<longrightarrow>
                (case resolved w k of None \<Rightarrow> True | Some r \<Rightarrow> decodes l ty r))
              \<longrightarrow> main l w =
                    RunApp (fill l (\<lambda>k. if k \<in> set setting_keys then resolved w k else None)))"
proof -
  let ?w' = "w\<lparr>files := Map.empty\<rparr>"
  have c: "config (snd (loaded w)) = []"
    and lg: "fst (loaded w) = fst (locateConfig w init)"
    using read_failure [OF assms] by simp_all
  have c': "config (snd (loaded ?w')) = []"
    using read_failure(1) [OF locatedFile_no_files [of w]] .
  have "AllSettings (snd (loaded w)) w = AllSettings (snd (loaded ?w')) ?w'"
    by (rule AllSettings_cong) (simp_all add: loaded_fields c c')
  then have m: "main l w = main l ?w'"
    by (rule main_eq)
  have r: "\<forall>(k, n) \<in> set bindings. \<exists>f. Lookup n = Some f
               \<and> resolved w k =
                   first_present [supplied (args w) f, map_option VStr (nonempty (envVar w k)),
                                  Some (fdefault f)]"
    using resolved_without_file [OF c] by blast
  have ok: "(\<forall>(k, ty) \<in> set config_fields. k \<in> set setting_keys \<longrightarrow>
                (case resolved w k of None \<Rightarrow> True | Some r \<Rightarrow> decodes l ty r))
              \<longrightarrow> main l w =
                    RunApp (fill l (\<lambda>k. if k \<in> set setting_keys then resolved w k else None))"
    using runs_without_file [OF c] by blast
  have fv: "fileValue w key = None"
    by (simp add: fileValue_def c)
  from c fv lg m r ok show ?thesis
    by (intro conjI)
qed

theorem unreadable_file_witness:
  "locatedFile malformedWorld = Some ''/home/u/.config/gonzo/config.yaml''
   \<and> files malformedWorld ''/home/u/.config/gonzo/config.yaml'' = Some Malformed
   \<and> config (snd (loaded malformedWorld)) = []
   \<and> main sampleLib malformedWorld = main sampleLib (malformedWorld\<lparr>files := Map.empty\<rparr>)
   \<and> (''skin'', ''skin'') \<in> set bindings
   \<and> resolved malformedWorld ''skin'' = Some (VStr ''mono'')
   \<and> main sampleLib malformedWorld = RunApp (defaultConfig\<lparr>Skin := ''mono''\<rparr>)
   \<and> locatedFile (emptyEnvWorld\<lparr>files := Map.empty\<rparr>) = Some ''/etc/gonzo.yml''
   \<and> files (emptyEnvWorld\<lparr>files := Map.empty\<rparr>) ''/etc/gonzo.yml'' = None
   \<and> config (snd (loaded (emptyEnvWorld\<lparr>files := Map.empty\<rparr>))) = []
   \<and> main sampleLib (emptyEnvWorld\<lparr>files := Map.empty\<rparr>) = RunApp defaultConfig"
proof -
  let ?e = "emptyEnvWorld\<lparr>files := Map.empty\<rparr>"
  have c: "cfgFile (args malformedWorld) = []" and h: "home malformedWorld = Some ''/home/u''"
    by (simp_all add: cfgFile_def malformedWorld_def)
  have lm: "locatedFile malformedWorld = Some ''/home/u/.config/gonzo/config.yaml''"
  proof -
    have f: "files malformedWorld = [''/home/u/.config/gonzo/config.yaml'' \<mapsto> Malformed]"
      by (simp add: malformedWorld_def)
    show ?thesis
      by (simp add: locatedFile_def getConfigFile_def setupEnv_fields locate_home [OF c h]
          init_fields searchInPath_def SupportedExts_def f)
  qed
  have fm: "files malformedWorld ''/home/u/.config/gonzo/config.yaml'' = Some Malformed"
    by (simp add: malformedWorld_def)
  have pm: "case locatedFile malformedWorld of None \<Rightarrow> True
            | Some p \<Rightarrow> files malformedWorld p = None \<or> files malformedWorld p = Some Malformed"
    by (simp add: lm fm)
  have "cfgFile (args ?e) \<noteq> []"
    by (simp add: cfgFile_def emptyEnvWorld_def)
  then have "locatedFile ?e = Some (cfgFile (args ?e))"
    by (rule locatedFile_explicit)
  then have le: "locatedFile ?e = Some ''/etc/gonzo.yml''"
    by (simp add: cfgFile_def emptyEnvWorld_def)
  have fe: "files ?e ''/etc/gonzo.yml'' = None"
    by simp
  have pe: "case locatedFile ?e of None \<Rightarrow> True
            | Some p \<Rightarrow> files ?e p = None \<or> files ?e p = Some Malformed"
    by (simp add: le)
  have s: "(''skin'', ''skin'') \<in> set bindings"
    by (simp add: bindings_def)
  have ls: "Lookup ''skin'' = Some (mkflag ''skin'' TString (VStr ''default''))"
    by (simp add: Lookup_def rootFlags_def mkflag_def)
  have sm: "supplied (args malformedWorld) (mkflag ''skin'' TString (VStr ''default'')) = None"
    by (simp add: supplied_def malformedWorld_def mkflag_def)
  have em: "envVar malformedWorld ''skin'' = Some ''mono''"
    by (simp add: envVar_def malformedWorld_def ToUpper_def Replace_def char_tables)
  note m = unreadable_file_is_not_fatal [OF pm, of "''skin''" sampleLib]
  from m have 1: "config (snd (loaded malformedWorld)) = []"
    by (elim conjE)
  from m have 2: "main sampleLib malformedWorld
                    = main sampleLib (malformedWorld\<lparr>files := Map.empty\<rparr>)"
    by (elim conjE)
  from m s have "\<exists>f. Lookup ''skin'' = Some f
          \<and> resolved malformedWorld ''skin'' =
              first_present [supplied (args malformedWorld) f,
                             map_option VStr (nonempty (envVar malformedWorld ''skin'')),
                             Some (fdefault f)]"
    by blast
  then have 3: "resolved malformedWorld ''skin'' = Some (VStr ''mono'')"
    using ls sm em by (auto simp: nonempty_def)
  have dm: "\<forall>(k, ty) \<in> set config_fields. k \<in> set setting_keys \<longrightarrow>
              (case resolved malformedWorld k of None \<Rightarrow> True
               | Some r \<Rightarrow> decodes sampleLib ty r)"
    by code_simp
  have cm: "fill sampleLib (\<lambda>k. if k \<in> set setting_keys then resolved malformedWorld k
                                  else None)
              = defaultConfig\<lparr>Skin := ''mono''\<rparr>"
    by code_simp
  from m have "(\<forall>(k, ty) \<in> set config_fields. k \<in> set setting_keys \<longrightarrow>
                  (case resolved malformedWorld k of None \<Rightarrow> True
                   | Some r \<Rightarrow> decodes sampleLib ty r))
               \<longrightarrow> main sampleLib malformedWorld =
                     RunApp (fill sampleLib (\<lambda>k. if k \<in> set setting_keys
                                                   then resolved malformedWorld k else None))"
    by (elim conjE)
  with dm have "main sampleLib malformedWorld =
                  RunApp (fill sampleLib (\<lambda>k. if k \<in> set setting_keys
                                                then resolved malformedWorld k else None))"
    by (rule rev_mp)
  with cm have 5: "main sampleLib malformedWorld = RunApp (defaultConfig\<lparr>Skin := ''mono''\<rparr>)"
    by (simp only:)
  note e = unreadable_file_is_not_fatal [OF pe, of "''skin''" sampleLib]
  from e have 4: "config (snd (loaded ?e)) = []"
    by (elim conjE)
  have de: "\<forall>(k, ty) \<in> set config_fields. k \<in> set setting_keys \<longrightarrow>
              (case resolved ?e k of None \<Rightarrow> True | Some r \<Rightarrow> decodes sampleLib ty r)"
    by code_simp
  have ce: "fill sampleLib (\<lambda>k. if k \<in> set setting_keys then resolved ?e k else None)
              = defaultConfig"
    by code_simp
  from e have "(\<forall>(k, ty) \<in> set config_fields. k \<in> set setting_keys \<longrightarrow>
                  (case resolved ?e k of None \<Rightarrow> True | Some r \<Rightarrow> decodes sampleLib ty r))
               \<longrightarrow> main sampleLib ?e =
                     RunApp (fill sampleLib (\<lambda>k. if k \<in> set setting_keys
                                                   then resolved ?e k else None))"
    by (elim conjE)
  with de have "main sampleLib ?e =
                  RunApp (fill sampleLib (\<lambda>k. if k \<in> set setting_keys
                                                then resolved ?e k else None))"
    by (rule rev_mp)
  with ce have 6: "main sampleLib ?e = RunApp defaultConfig"
    by (simp only:)
  from lm fm 1 2 s 3 5 le fe 4 6 show ?thesis
    by (intro conjI)
qed

section \<open>Materialising the typed record\<close>

lemma in_pflags_init: "(k, n) \<in> set bindings \<Longrightarrow> k \<in> set (map fst (pflags init))"
  by (force simp: pflags_init)

lemma AllSettings_bound:
  assumes "(k, n) \<in> set bindings"
  shows "AllSettings (snd (loaded w)) w k = resolved w k"
  using in_pflags_init [OF assms]
  by (simp add: AllSettings_def inAllKeys_def loaded_fields resolved_def)

lemma Unmarshal_fails:
  assumes "(k, t) \<in> set config_fields" and "s k = Some r" and "\<not> decodes l t r"
  shows "\<exists>errs. Unmarshal l s = Inl errs \<and> k \<in> set errs"
proof -
  have m: "(k, t) \<in> set (filter (fieldFails l s) config_fields)"
    using assms by (simp add: fieldFails_def)
  then have ne: "filter (fieldFails l s) config_fields \<noteq> []"
    by (auto simp del: set_filter)
  from m have "fst (k, t) \<in> fst ` set (filter (fieldFails l s) config_fields)"
    by (rule imageI)
  then have "k \<in> set (map fst (filter (fieldFails l s) config_fields))"
    by (simp del: set_filter)
  with ne show ?thesis
    by (simp add: Unmarshal_def Let_def del: set_filter)
qed

text \<open>
  C5.  If a value of the merged settings does not convert to the type of the field tagged
  with its key, \<^verbatim>\<open>Unmarshal\<close> returns an error, \<^verbatim>\<open>initConfig\<close> logs
  \<^verbatim>\<open>Unable to decode config\<close> and the process ends with status 1;
  \<^verbatim>\<open>runApp\<close> is not entered with any configuration.
\<close>

theorem undecodable_value_aborts:
  assumes "(k, t) \<in> set config_fields"
    and "AllSettings (snd (loaded w)) w k = Some r"
    and "\<not> decodes l t r"
  shows "main l w = Exit 1 \<and> (\<forall>c. main l w \<noteq> RunApp c)
         \<and> initConfig l w = (fst (loaded w) @ [''Unable to decode config''], Inl 1)"
proof -
  from Unmarshal_fails [of k t "AllSettings (snd (loaded w)) w" r l] assms obtain errs
    where "Unmarshal l (AllSettings (snd (loaded w)) w) = Inl errs"
    by blast
  then show ?thesis
    by (simp add: main_def initConfig_def case_prod_unfold)
qed

theorem undecodable_value_witness:
  "(''otlp-grpc-port'', TInt) \<in> set config_fields
   \<and> AllSettings (snd (loaded badPortWorld)) badPortWorld ''otlp-grpc-port''
       = Some (VStr ''notanumber'')
   \<and> \<not> decodes sampleLib TInt (VStr ''notanumber'')
   \<and> main sampleLib badPortWorld = Exit 1"
proof -
  have f: "(''otlp-grpc-port'', TInt) \<in> set config_fields"
    by (simp add: config_fields_def)
  have b: "(''otlp-grpc-port'', ''otlp-grpc-port'') \<in> set bindings"
    by (simp add: bindings_def)
  have l: "Lookup ''otlp-grpc-port'' = Some (mkflag ''otlp-grpc-port'' TInt (VStr ''4317''))"
    by (simp add: Lookup_def rootFlags_def mkflag_def)
  have s: "supplied (args badPortWorld) (mkflag ''otlp-grpc-port'' TInt (VStr ''4317'')) = None"
    by (simp add: supplied_def badPortWorld_def mkflag_def)
  have e: "envVar badPortWorld ''otlp-grpc-port'' = Some ''notanumber''"
    by (simp add: envVar_def badPortWorld_def ToUpper_def Replace_def char_tables)
  have a: "AllSettings (snd (loaded badPortWorld)) badPortWorld ''otlp-grpc-port''
             = Some (VStr ''notanumber'')"
    by (simp add: AllSettings_bound [OF b] resolved_bound [OF b l] merge_resolve_def s e
        nonempty_def)
  have d: "\<not> decodes sampleLib TInt (VStr ''notanumber'')"
    by (simp add: decodes_def decodeInt_def sampleLib_def parse_decimal_def digit_value_def)
  from undecodable_value_aborts [OF f a d] f a d show ?thesis
    by simp
qed

section \<open>One key across the sources\<close>

text \<open>
  C6, as the code has it.  For every key that \<^verbatim>\<open>init\<close> binds: the key is already
  in the lower case under which the registry looks the configuration file up, it is the
  tag of a field of \<^verbatim>\<open>Config\<close>, and the environment variable is derived from it;
  the command-line flag bound to it exists and has the very same name, except for the
  key \<^verbatim>\<open>files\<close>, whose flag is named \<^verbatim>\<open>file\<close>.
\<close>

theorem setting_key_across_sources:
  assumes "(k, n) \<in> set bindings"
  shows "n = (if k = ''files'' then ''file'' else k)
         \<and> (\<exists>f. Lookup n = Some f \<and> fname f = n \<and> map_of (pflags (snd (loaded w))) k = Some f)
         \<and> ToLower k = k
         \<and> k \<in> set (map fst config_fields)
         \<and> envName (snd (loaded w)) k = ''GONZO_'' @ Replace (CHR ''-'', CHR ''_'') (ToUpper k)"
proof -
  have 1: "n = (if k = ''files'' then ''file'' else k)"
    using assms by (auto simp: bindings_def)
  from bindings_lookup [OF assms] obtain f where f: "Lookup n = Some f" "fname f = n"
    by blast
  have 2: "map_of (pflags (snd (loaded w))) k = Some f"
    using bound_flag [OF assms f(1)] by (simp add: loaded_fields)
  have 3: "k \<in> set (map fst config_fields)"
    using assms setting_keys_fields by (force simp: setting_keys_def)
  from 1 f 2 3 setting_keys_lower [OF assms] envName_loaded [of w k] show ?thesis
    by blast
qed

theorem setting_key_across_sources_witness:
  "(''vmlogs-user'', ''vmlogs-user'') \<in> set bindings
   \<and> Lookup ''vmlogs-user'' = Some (mkflag ''vmlogs-user'' TString (VStr []))
   \<and> ''vmlogs-user'' \<in> set (map fst config_fields)
   \<and> envName (snd (loaded bareWorld)) ''vmlogs-user'' = ''GONZO_VMLOGS_USER''
   \<and> (''files'', ''file'') \<in> set bindings
   \<and> envName (snd (loaded bareWorld)) ''files'' = ''GONZO_FILES''"
proof -
  have a: "(''vmlogs-user'', ''vmlogs-user'') \<in> set bindings"
    and b: "(''files'', ''file'') \<in> set bindings"
    by (simp_all add: bindings_def)
  have l: "Lookup ''vmlogs-user'' = Some (mkflag ''vmlogs-user'' TString (VStr []))"
    by (simp add: Lookup_def rootFlags_def mkflag_def)
  from setting_key_across_sources [OF a, of bareWorld]
  have 1: "''vmlogs-user'' \<in> set (map fst config_fields)"
    and 2: "envName (snd (loaded bareWorld)) ''vmlogs-user'' = ''GONZO_VMLOGS_USER''"
    by (simp_all add: ToUpper_def Replace_def char_tables)
  from setting_key_across_sources [OF b, of bareWorld]
  have 3: "envName (snd (loaded bareWorld)) ''files'' = ''GONZO_FILES''"
    by (simp add: ToUpper_def Replace_def char_tables)
  from a b l 1 2 3 show ?thesis
    by simp
qed

text \<open>
  C6 as stated fails at the input-files setting: the registry key, the tag of the field
  and the environment variable are \<^verbatim>\<open>files\<close> / \<^verbatim>\<open>GONZO_FILES\<close>, but the
  flag bound to that key is named \<^verbatim>\<open>file\<close>; no flag is named
  \<^verbatim>\<open>files\<close> and no field is tagged \<^verbatim>\<open>file\<close>.
\<close>

theorem files_key_counterexample:
  "(''files'', ''file'') \<in> set bindings
   \<and> ''file'' \<noteq> ''files''
   \<and> Lookup ''files'' = None
   \<and> Lookup ''file'' = Some (mkflag ''file'' TStringSlice (VStrs []))
   \<and> (''files'', TStringSlice) \<in> set config_fields
   \<and> ''file'' \<notin> set (map fst config_fields)
   \<and> envName (snd (loaded bareWorld)) ''files'' = ''GONZO_FILES''
   \<and> envName (snd (loaded bareWorld)) ''file'' = ''GONZO_FILE''"
  by (simp add: bindings_def Lookup_def rootFlags_def mkflag_def config_fields_def
      envName_loaded ToUpper_def Replace_def char_tables)

lemma sameDecode_refl: "sameDecode l ty a a"
  by (cases a; cases ty) (simp_all add: sameDecode_def)

lemma sameDecode_fields:
  "sameDecode l TInt (s k) (s' k) \<Longrightarrow> intField l s k = intField l s' k"
  "sameDecode l TDuration (s k) (s' k) \<Longrightarrow> durField l s k = durField l s' k"
  "sameDecode l TBool (s k) (s' k) \<Longrightarrow> boolField s k = boolField s' k"
  "sameDecode l TString (s k) (s' k) \<Longrightarrow> strField s k = strField s' k"
  "sameDecode l TStringSlice (s k) (s' k) \<Longrightarrow> sliceField s k = sliceField s' k"
  by (cases "s k"; cases "s' k";
      simp add: sameDecode_def intField_def durField_def boolField_def strField_def
        sliceField_def)+

lemma sameDecode_fails:
  "sameDecode l ty (s k) (s' k) \<Longrightarrow> fieldFails l s (k, ty) = fieldFails l s' (k, ty)"
  by (cases "s k"; cases "s' k"; cases ty)
     (simp_all add: sameDecode_def fieldFails_def decodes_def)

lemma Unmarshal_cong:
  assumes "\<forall>(k, ty) \<in> set config_fields. sameDecode l ty (s k) (s' k)"
  shows "Unmarshal l s = Unmarshal l s'"
proof -
  have "filter (fieldFails l s) config_fields = filter (fieldFails l s') config_fields"
    using assms by (intro filter_cong refl) (auto dest: sameDecode_fails)
  moreover have "fill l s = fill l s'"
    using assms unfolding fill_def config_fields_def
    by (simp add: sameDecode_fields [of l])
  ultimately show ?thesis
    by (simp add: Unmarshal_def Let_def)
qed

lemma field_tags_lower: "(t, ty) \<in> set config_fields \<Longrightarrow> ToLower t = t"
  by (auto simp: config_fields_def ToLower_def char_tables)

lemma lowerKey_tag: "(t, ty) \<in> set config_fields \<Longrightarrow> lowerKey u t = t"
  by (auto simp: config_fields_def lowerKey_def isASCII_def ToLower_def char_tables)













section \<open>String lists\<close>

lemma split_acc_ne: "split_acc sep acc s \<noteq> []"
  by (induction s arbitrary: acc) auto

lemma Join_Cons: "ys \<noteq> [] \<Longrightarrow> Join (x # ys) sep = x @ sep # Join ys sep"
  by (cases ys) simp_all

lemma Join_split_acc: "Join (split_acc sep acc s) sep = rev acc @ s"
  by (induction s arbitrary: acc) (simp_all add: Join_Cons split_acc_ne)

lemma Join_Split: "Join (Split s sep) sep = s"
  by (simp add: Split_def Join_split_acc)

lemma split_acc_field: "sep \<notin> set x \<Longrightarrow> split_acc sep acc x = [rev acc @ x]"
  by (induction x arbitrary: acc) auto

lemma split_acc_append:
  "sep \<notin> set x \<Longrightarrow> split_acc sep acc (x @ sep # rest) = (rev acc @ x) # split_acc sep [] rest"
  by (induction x arbitrary: acc) auto

lemma Split_Join:
  assumes "xs \<noteq> []" and "\<forall>x \<in> set xs. sep \<notin> set x"
  shows "Split (Join xs sep) sep = xs"
  using assms
proof (induction xs sep rule: Join.induct)
  case (1 sep)
  then show ?case by simp
next
  case (2 x sep)
  then show ?case by (simp add: Split_def split_acc_field)
next
  case (3 x y ys sep)
  then show ?case by (simp add: Split_def split_acc_append)
qed

lemma main_RunApp:
  assumes "main l w = RunApp c"
  shows "c = fill l (AllSettings (snd (loaded w)) w)"
  using assms
  by (simp add: main_def snd_initConfig Unmarshal_def Let_def split: sum.splits if_splits)

lemma fill_slices:
  "StopWords (fill l s) = sliceField s ''stop-words''" "Files (fill l s) = sliceField s ''files''"
  by (simp_all add: fill_def)

lemma crlf_id: "lf \<notin> set s \<Longrightarrow> crlf s = s"
  by (induction s rule: crlf.induct) auto

lemma normNL_id: "lf \<notin> set s \<Longrightarrow> s = [] \<or> last s \<noteq> cr \<Longrightarrow> normNL s = s"
  by (induction s rule: normNL.induct) auto

lemma csvRecord_clean:
  assumes "dquote \<notin> set s" and "lf \<notin> set s"
  shows "csvRecord Bare acc fs s = Some (rev fs @ split_acc (CHR '','') acc s)"
    and "csvRecord FieldStart a fs s = Some (rev fs @ split_acc (CHR '','') [] s)"
  using assms
  by (induction s arbitrary: acc fs a) auto

lemma Split_not_single_empty:
  assumes "s \<noteq> []"
  shows "Split s sep \<noteq> [[]]"
proof
  assume "Split s sep = [[]]"
  then have "Join (Split s sep) sep = []"
    by simp
  with assms show False
    by (simp add: Join_Split)
qed

lemma split_acc_no_lf:
  "lf \<notin> set acc \<Longrightarrow> lf \<notin> set s \<Longrightarrow> x \<in> set (split_acc sep acc s) \<Longrightarrow> lf \<notin> set x"
proof (induction s arbitrary: acc)
  case Nil
  then show ?case by simp
next
  case (Cons c cs)
  show ?case
  proof (cases "c = sep")
    case True
    with Cons.prems have "x = rev acc \<or> x \<in> set (split_acc sep [] cs)"
      by simp
    then show ?thesis
    proof
      assume "x = rev acc"
      with Cons.prems(1) show ?thesis by simp
    next
      assume "x \<in> set (split_acc sep [] cs)"
      with Cons.IH [of "[]"] Cons.prems(2) show ?thesis by simp
    qed
  next
    case False
    with Cons.prems have "x \<in> set (split_acc sep (c # acc) cs)"
      by simp
    with Cons.IH [of "c # acc"] Cons.prems(1,2) show ?thesis
      by simp
  qed
qed

lemma Split_fields_no_lf:
  assumes "lf \<notin> set s" and "x \<in> set (Split s sep)"
  shows "lf \<notin> set x"
  using split_acc_no_lf [of "[]" s x sep] assms by (simp add: Split_def)

lemma case_nonempty: "t \<noteq> [] \<Longrightarrow> (case t of [] \<Rightarrow> None | a # l \<Rightarrow> g (a # l)) = g t"
  by (cases t) simp_all

lemma readAsCSV_clean:
  assumes "val \<noteq> []" and "dquote \<notin> set val" and "lf \<notin> set val" and "last val \<noteq> cr"
  shows "readAsCSV val = Some (Split val (CHR '',''))"
    and "readBack (Split val (CHR '','')) = Split val (CHR '','')"
proof -
  have n: "normNL val = val"
    using assms(3,4) by (simp add: normNL_id)
  have d: "dropWhile (\<lambda>c. c = lf) val = val"
    using assms(1,3) by (cases val) auto
  show "readAsCSV val = Some (Split val (CHR '',''))"
    using assms(1) csvRecord_clean(2) [OF assms(2,3), of "[]" "[]"]
    by (simp add: readAsCSV_def n d Split_def case_nonempty)
  have "map crlf (Split val (CHR '','')) = Split val (CHR '','')"
    using Split_fields_no_lf [OF assms(3)] by (simp add: map_idI crlf_id)
  then show "readBack (Split val (CHR '','')) = Split val (CHR '','')"
    using Split_not_single_empty [OF assms(1)] by (simp add: readBack_def)
qed

lemma setFlag_slice_clean:
  assumes "ftyp f = TStringSlice" and "slices (args w) (fname f) = None"
    and "val \<noteq> []" and "dquote \<notin> set val" and "lf \<notin> set val" and "last val \<noteq> cr"
  shows "setFlag w f val =
           Some (w\<lparr>args := (args w)\<lparr>slices := (slices (args w))(fname f \<mapsto> Split val (CHR '',''))\<rparr>\<rparr>)"
  using assms by (simp add: setFlag_def readAsCSV_clean(1))

lemma supplied_slice_clean:
  assumes "ftyp f = TStringSlice"
    and "val \<noteq> []" and "dquote \<notin> set val" and "lf \<notin> set val" and "last val \<noteq> cr"
  shows "supplied (args (w\<lparr>args := (args w)\<lparr>slices := (slices (args w))(fname f \<mapsto> Split val (CHR '',''))\<rparr>\<rparr>)) f
           = Some (VStrs (Split val (CHR '','')))"
  using assms by (simp add: supplied_def readAsCSV_clean(2))

lemma resolved_supplied:
  assumes "(k, n) \<in> set bindings" and "Lookup n = Some f" and "supplied (args w) f = Some r"
  shows "resolved w k = Some r"
  using resolved_bound [OF assms(1,2), of w] assms(3) by (simp add: merge_resolve_def)

lemma resolved_slice_flag:
  assumes "(k, n) \<in> set bindings" and "Lookup n = Some f" and "ftyp f = TStringSlice"
    and "slices (args w0) (fname f) = None" and "setFlag w0 f val = Some w"
    and "val \<noteq> []" and "dquote \<notin> set val" and "lf \<notin> set val" and "last val \<noteq> cr"
  shows "resolved w k = Some (VStrs (Split val (CHR '','')))"
proof -
  have "w = w0\<lparr>args := (args w0)\<lparr>slices := (slices (args w0))(fname f \<mapsto> Split val (CHR '',''))\<rparr>\<rparr>"
    using setFlag_slice_clean [OF assms(3,4,6-9)] assms(5) by simp
  then have "supplied (args w) f = Some (VStrs (Split val (CHR '','')))"
    using supplied_slice_clean [OF assms(3,6-9), of w0] by simp
  then show ?thesis
    by (rule resolved_supplied [OF assms(1,2)])
qed

text \<open>
  C9, as the code has it.  Whenever the process reaches \<^verbatim>\<open>runApp\<close>: a string-list
  setting (\<^verbatim>\<open>stop-words\<close>, \<^verbatim>\<open>files\<close>) whose resolved value is a non-empty
  string \<open>s\<close> (an environment variable, a string of the configuration file) becomes
  \<^verbatim>\<open>strings.Split(s, ",")\<close>.  Splitting loses nothing and keeps the order: joining
  the fields with commas gives \<open>s\<close> back, and if \<open>s\<close> is a non-empty sequence of
  comma-free elements joined by commas, the fields are exactly these elements, duplicates
  included.  A resolved value that is already a sequence becomes the field as it is.  A
  text \<open>s\<close> given to the flag (\<^verbatim>\<open>--stop-words\<close>, \<^verbatim>\<open>--file\<close>), not supplied
  before, is read by pflag as one CSV record; when \<open>s\<close> holds no double quote, no line
  feed and no carriage return at its end, the setting becomes the same
  \<^verbatim>\<open>strings.Split(s, ",")\<close>.
\<close>

theorem string_list_is_comma_split:
  assumes "main l w = RunApp c" and "s \<noteq> []"
  shows "(resolved w ''stop-words'' = Some (VStr s) \<longrightarrow> StopWords c = Split s (CHR '',''))
         \<and> (resolved w ''files'' = Some (VStr s) \<longrightarrow> Files c = Split s (CHR '',''))
         \<and> Join (Split s (CHR '','')) (CHR '','') = s
         \<and> (xs \<noteq> [] \<and> (\<forall>x \<in> set xs. CHR '','' \<notin> set x) \<and> s = Join xs (CHR '','')
              \<longrightarrow> Split s (CHR '','') = xs)
         \<and> (resolved w ''stop-words'' = Some (VStrs xs) \<longrightarrow> StopWords c = xs)
         \<and> (resolved w ''files'' = Some (VStrs xs) \<longrightarrow> Files c = xs)
         \<and> (dquote \<notin> set s \<and> lf \<notin> set s \<and> last s \<noteq> cr
              \<and> slices (args w0) (fname f) = None \<and> setFlag w0 f s = Some w
              \<longrightarrow> (Lookup ''stop-words'' = Some f \<longrightarrow> StopWords c = Split s (CHR '',''))
                  \<and> (Lookup ''file'' = Some f \<longrightarrow> Files c = Split s (CHR '','')))"
proof -
  have sw: "(''stop-words'', ''stop-words'') \<in> set bindings"
    and fl: "(''files'', ''file'') \<in> set bindings"
    by (simp_all add: bindings_def)
  have c: "c = fill l (AllSettings (snd (loaded w)) w)"
    using assms(1) by (rule main_RunApp)
  have 1: "StopWords c = sliceField (resolved w) ''stop-words''"
    by (simp add: c fill_slices sliceField_def AllSettings_bound [OF sw])
  have 2: "Files c = sliceField (resolved w) ''files''"
    by (simp add: c fill_slices sliceField_def AllSettings_bound [OF fl])
  have a: "(resolved w ''stop-words'' = Some (VStr s) \<longrightarrow> StopWords c = Split s (CHR '',''))
         \<and> (resolved w ''files'' = Some (VStr s) \<longrightarrow> Files c = Split s (CHR '',''))
         \<and> Join (Split s (CHR '','')) (CHR '','') = s
         \<and> (xs \<noteq> [] \<and> (\<forall>x \<in> set xs. CHR '','' \<notin> set x) \<and> s = Join xs (CHR '','')
              \<longrightarrow> Split s (CHR '','') = xs)
         \<and> (resolved w ''stop-words'' = Some (VStrs xs) \<longrightarrow> StopWords c = xs)
         \<and> (resolved w ''files'' = Some (VStrs xs) \<longrightarrow> Files c = xs)"
    using assms(2) Split_Join [of xs "CHR '',''"]
    by (auto simp: 1 2 sliceField_def decodeSlice_def Join_Split)
  have b: "dquote \<notin> set s \<and> lf \<notin> set s \<and> last s \<noteq> cr
              \<and> slices (args w0) (fname f) = None \<and> setFlag w0 f s = Some w
              \<longrightarrow> (Lookup ''stop-words'' = Some f \<longrightarrow> StopWords c = Split s (CHR '',''))
                  \<and> (Lookup ''file'' = Some f \<longrightarrow> Files c = Split s (CHR '',''))"
  proof (intro impI conjI)
    assume h: "dquote \<notin> set s \<and> lf \<notin> set s \<and> last s \<noteq> cr
              \<and> slices (args w0) (fname f) = None \<and> setFlag w0 f s = Some w"
    {
      assume l: "Lookup ''stop-words'' = Some f"
      then have t: "ftyp f = TStringSlice"
        by (auto simp: Lookup_def rootFlags_def mkflag_def)
      from h have "resolved w ''stop-words'' = Some (VStrs (Split s (CHR '','')))"
        using resolved_slice_flag [OF sw l t, of w0 s w] assms(2) by blast
      then show "StopWords c = Split s (CHR '','')"
        by (simp add: 1 sliceField_def decodeSlice_def)
    }
    {
      assume l: "Lookup ''file'' = Some f"
      then have t: "ftyp f = TStringSlice"
        by (auto simp: Lookup_def rootFlags_def mkflag_def)
      from h have "resolved w ''files'' = Some (VStrs (Split s (CHR '','')))"
        using resolved_slice_flag [OF fl l t, of w0 s w] assms(2) by blast
      then show "Files c = Split s (CHR '','')"
        by (simp add: 2 sliceField_def decodeSlice_def)
    }
  qed
  from a b show ?thesis
    by blast
qed

theorem string_list_witness:
  "main sampleLib stopWordsWorld
     = RunApp (defaultConfig\<lparr>Files := [''a.log'', ''b.log'', ''a.log''],
                              StopWords := [''foo'', ''bar'', ''baz'']\<rparr>)
   \<and> ''foo,bar,baz'' \<noteq> []
   \<and> resolved stopWordsWorld ''stop-words'' = Some (VStr ''foo,bar,baz'')
   \<and> resolved stopWordsWorld ''files'' = Some (VStr ''a.log,b.log,a.log'')
   \<and> Split ''foo,bar,baz'' (CHR '','') = [''foo'', ''bar'', ''baz'']
   \<and> Split ''a.log,b.log,a.log'' (CHR '','') = [''a.log'', ''b.log'', ''a.log'']
   \<and> Lookup ''stop-words'' = Some (mkflag ''stop-words'' TStringSlice (VStrs []))
   \<and> setFlag bareWorld (mkflag ''stop-words'' TStringSlice (VStrs [])) ''foo,bar,baz''
       = Some flagListWorld
   \<and> main sampleLib flagListWorld
       = RunApp (defaultConfig\<lparr>StopWords := Split ''foo,bar,baz'' (CHR '','')\<rparr>)"
proof -
  let ?c = "defaultConfig\<lparr>Files := [''a.log'', ''b.log'', ''a.log''],
                          StopWords := [''foo'', ''bar'', ''baz'']\<rparr>"
  let ?d = "defaultConfig\<lparr>StopWords := [''foo'', ''bar'', ''baz'']\<rparr>"
  let ?f = "mkflag ''stop-words'' TStringSlice (VStrs [])"
  have m: "main sampleLib stopWordsWorld = RunApp ?c"
    by code_simp
  have r1: "resolved stopWordsWorld ''stop-words'' = Some (VStr ''foo,bar,baz'')"
    by code_simp
  have r2: "resolved stopWordsWorld ''files'' = Some (VStr ''a.log,b.log,a.log'')"
    by code_simp
  have n1: "''foo,bar,baz'' \<noteq> []" and n2: "''a.log,b.log,a.log'' \<noteq> []"
    by simp_all
  have s1: "StopWords ?c = [''foo'', ''bar'', ''baz'']"
    and s2: "Files ?c = [''a.log'', ''b.log'', ''a.log'']"
    by simp_all
  from string_list_is_comma_split [OF m n1, of "[]"]
  have "resolved stopWordsWorld ''stop-words'' = Some (VStr ''foo,bar,baz'')
          \<longrightarrow> StopWords ?c = Split ''foo,bar,baz'' (CHR '','')"
    by (rule conjunct1)
  with r1 have "StopWords ?c = Split ''foo,bar,baz'' (CHR '','')"
    by (rule rev_mp)
  with s1 have 1: "Split ''foo,bar,baz'' (CHR '','') = [''foo'', ''bar'', ''baz'']"
    by (simp only:)
  from string_list_is_comma_split [OF m n2, of "[]"]
  have "resolved stopWordsWorld ''files'' = Some (VStr ''a.log,b.log,a.log'')
          \<longrightarrow> Files ?c = Split ''a.log,b.log,a.log'' (CHR '','')"
    by (rule conjunct2 [THEN conjunct1])
  with r2 have "Files ?c = Split ''a.log,b.log,a.log'' (CHR '','')"
    by (rule rev_mp)
  with s2 have 2: "Split ''a.log,b.log,a.log'' (CHR '','') = [''a.log'', ''b.log'', ''a.log'']"
    by (simp only:)
  have l: "Lookup ''stop-words'' = Some ?f"
    by (simp add: Lookup_def rootFlags_def mkflag_def)
  have rd: "readAsCSV ''foo,bar,baz'' = Some [''foo'', ''bar'', ''baz'']"
    by code_simp
  have sf: "setFlag bareWorld ?f ''foo,bar,baz'' = Some flagListWorld"
    by (simp add: setFlag_def mkflag_def rd bareWorld_def flagListWorld_def)
  have mf: "main sampleLib flagListWorld = RunApp ?d"
    by code_simp
  have cl: "dquote \<notin> set ''foo,bar,baz'' \<and> lf \<notin> set ''foo,bar,baz''
            \<and> last ''foo,bar,baz'' \<noteq> cr
            \<and> slices (args bareWorld) (fname ?f) = None
            \<and> setFlag bareWorld ?f ''foo,bar,baz'' = Some flagListWorld"
    using sf by (simp add: dquote_def lf_def cr_def bareWorld_def)
  from string_list_is_comma_split [OF mf n1, of "[]" bareWorld ?f]
  have "dquote \<notin> set ''foo,bar,baz'' \<and> lf \<notin> set ''foo,bar,baz''
            \<and> last ''foo,bar,baz'' \<noteq> cr
            \<and> slices (args bareWorld) (fname ?f) = None
            \<and> setFlag bareWorld ?f ''foo,bar,baz'' = Some flagListWorld
          \<longrightarrow> (Lookup ''stop-words'' = Some ?f \<longrightarrow> StopWords ?d = Split ''foo,bar,baz'' (CHR '',''))
              \<and> (Lookup ''file'' = Some ?f \<longrightarrow> Files ?d = Split ''foo,bar,baz'' (CHR '',''))"
    by (elim conjE)
  with cl have "(Lookup ''stop-words'' = Some ?f \<longrightarrow> StopWords ?d = Split ''foo,bar,baz'' (CHR '',''))
              \<and> (Lookup ''file'' = Some ?f \<longrightarrow> Files ?d = Split ''foo,bar,baz'' (CHR '',''))"
    by (rule rev_mp)
  then have "Lookup ''stop-words'' = Some ?f \<longrightarrow> StopWords ?d = Split ''foo,bar,baz'' (CHR '','')"
    by (rule conjunct1)
  with l have "StopWords ?d = Split ''foo,bar,baz'' (CHR '','')"
    by (rule rev_mp)
  then have "?d = defaultConfig\<lparr>StopWords := Split ''foo,bar,baz'' (CHR '','')\<rparr>"
    by simp
  with mf have 3: "main sampleLib flagListWorld
                     = RunApp (defaultConfig\<lparr>StopWords := Split ''foo,bar,baz'' (CHR '','')\<rparr>)"
    by (simp only:)
  from m n1 r1 r2 1 2 l sf 3 show ?thesis
    by (intro conjI)
qed

text \<open>
  C9 as stated fails on the flag: pflag reads the text of \<^verbatim>\<open>--stop-words\<close> as one
  CSV record, so a quoted field keeps its comma, a line feed ends the record and a
  carriage return at the end is dropped, where a split at the commas would not.
\<close>

theorem quoted_flag_text_counterexample:
  "Lookup ''stop-words'' = Some (mkflag ''stop-words'' TStringSlice (VStrs []))
   \<and> mainParsed sampleLib
        (setFlag bareWorld (mkflag ''stop-words'' TStringSlice (VStrs []))
           (dquote # ''a,b'' @ dquote # '',c''))
       = RunApp (defaultConfig\<lparr>StopWords := [''a,b'', ''c'']\<rparr>)
   \<and> Split (dquote # ''a,b'' @ dquote # '',c'') (CHR '','')
       = [dquote # ''a'', ''b'' @ [dquote], ''c'']
   \<and> mainParsed sampleLib
        (setFlag bareWorld (mkflag ''stop-words'' TStringSlice (VStrs [])) (''a,b'' @ lf # ''c''))
       = RunApp (defaultConfig\<lparr>StopWords := [''a'', ''b'']\<rparr>)
   \<and> Split (''a,b'' @ lf # ''c'') (CHR '','') = [''a'', ''b'' @ lf # ''c'']
   \<and> mainParsed sampleLib
        (setFlag bareWorld (mkflag ''stop-words'' TStringSlice (VStrs [])) (''a,b'' @ [cr]))
       = RunApp (defaultConfig\<lparr>StopWords := [''a'', ''b'']\<rparr>)
   \<and> Split (''a,b'' @ [cr]) (CHR '','') = [''a'', ''b'' @ [cr]]"
  by code_simp

section \<open>Environment variable against flag\<close>

lemma loaded_cong:
  assumes "cfgFile (args w) = cfgFile (args w')" and "home w = home w'" and "files w = files w'"
    and "unicodeLower w = unicodeLower w'"
  shows "loaded w = loaded w'"
  unfolding loaded_def locateConfig_def assms by (rule refl)

lemma bindings_names_distinct: "distinct (map snd bindings)"
  by (simp add: bindings_def)

lemma bound_name_not_config: "(k, n) \<in> set bindings \<Longrightarrow> n \<noteq> ''config''"
  by (auto simp: bindings_def)

lemma config_not_bound: "map_of (pflags init) ''config'' = None"
  by (simp add: pflags_init bindings_def)

lemma bound_type:
  assumes "(k, n) \<in> set bindings" and "Lookup n = Some f" and "(k, ty) \<in> set config_fields"
  shows "ftyp f = ty"
  using assms
  by (auto simp: bindings_def Lookup_def rootFlags_def mkflag_def config_fields_def)

lemma pflags_init_SomeD:
  assumes "map_of (pflags init) t = Some f'"
  shows "\<exists>n'. (t, n') \<in> set bindings \<and> Lookup n' = Some f' \<and> fname f' = n'"
proof -
  from assms have "(t, f') \<in> set (map (\<lambda>(key, name). (key, the (Lookup name))) bindings)"
    unfolding pflags_init by (rule map_of_SomeD)
  then obtain n' where n': "(t, n') \<in> set bindings" "f' = the (Lookup n')"
    by auto
  with bindings_lookup [OF n'(1)] show ?thesis
    by auto
qed

lemma loaded_setEnv: "loaded (setEnv w k val) = loaded w"
  by (rule loaded_cong) (simp_all add: setEnv_def)

lemma setFlag_props:
  assumes "fname f \<noteq> ''config''" and "supplied (args w) f = None"
    and "val \<noteq> []"
    and "ftyp f = TStringSlice \<longrightarrow> dquote \<notin> set val \<and> lf \<notin> set val \<and> last val \<noteq> cr"
  shows "\<exists>w'. setFlag w f val = Some w'
           \<and> loaded w' = loaded w
           \<and> environ w' = environ w
           \<and> unicodeLower w' = unicodeLower w
           \<and> HasChanged (args w') f
           \<and> flagValue (args w') f
               = (if ftyp f = TStringSlice then VStrs (Split val (CHR '','')) else VStr val)
           \<and> (\<forall>f'. fname f' \<noteq> fname f \<longrightarrow>
                  HasChanged (args w') f' = HasChanged (args w) f'
                  \<and> flagValue (args w') f' = flagValue (args w) f')"
proof (cases "ftyp f = TStringSlice")
  case True
  let ?w' = "w\<lparr>args := (args w)\<lparr>slices := (slices (args w))(fname f \<mapsto> Split val (CHR '',''))\<rparr>\<rparr>"
  from True assms(4) have cl: "dquote \<notin> set val" "lf \<notin> set val" "last val \<noteq> cr"
    by simp_all
  have ns: "slices (args w) (fname f) = None"
    using assms(2) True by (simp add: supplied_def)
  have s: "setFlag w f val = Some ?w'"
    by (rule setFlag_slice_clean [OF True ns assms(3) cl])
  have l: "loaded ?w' = loaded w"
    by (rule loaded_cong) (simp_all add: cfgFile_def)
  have v: "flagValue (args ?w') f = VStrs (Split val (CHR '',''))"
    using True by (simp add: flagValue_def readAsCSV_clean(2) [OF assms(3) cl])
  have h: "HasChanged (args ?w') f"
    using True by (simp add: HasChanged_def)
  have o: "\<forall>f'. fname f' \<noteq> fname f \<longrightarrow>
                  HasChanged (args ?w') f' = HasChanged (args w) f'
                  \<and> flagValue (args ?w') f' = flagValue (args w) f'"
  proof (intro allI impI)
    fix f' :: flag
    assume "fname f' \<noteq> fname f"
    then show "HasChanged (args ?w') f' = HasChanged (args w) f'
                \<and> flagValue (args ?w') f' = flagValue (args w) f'"
      by (cases "ftyp f'") (simp_all add: HasChanged_def flagValue_def)
  qed
  from s l v h o True show ?thesis
    by simp
next
  case False
  let ?w' = "w\<lparr>args := (args w)\<lparr>scalars := (scalars (args w))(fname f \<mapsto> val)\<rparr>\<rparr>"
  have s: "setFlag w f val = Some ?w'"
    using False by (cases "ftyp f") (simp_all add: setFlag_def)
  have l: "loaded ?w' = loaded w"
    using assms(1) by (intro loaded_cong) (simp_all add: cfgFile_def)
  have v: "flagValue (args ?w') f = VStr val"
    using False by (cases "ftyp f") (simp_all add: flagValue_def)
  have h: "HasChanged (args ?w') f"
    using False by (cases "ftyp f") (simp_all add: HasChanged_def)
  have o: "\<forall>f'. fname f' \<noteq> fname f \<longrightarrow>
                  HasChanged (args ?w') f' = HasChanged (args w) f'
                  \<and> flagValue (args ?w') f' = flagValue (args w) f'"
  proof (intro allI impI)
    fix f' :: flag
    assume "fname f' \<noteq> fname f"
    then show "HasChanged (args ?w') f' = HasChanged (args w) f'
                \<and> flagValue (args ?w') f' = flagValue (args w) f'"
      by (cases "ftyp f'") (simp_all add: HasChanged_def flagValue_def)
  qed
  from s l v h o False show ?thesis
    by simp
qed

lemma findv_layers_cong:
  assumes "unicodeLower w = unicodeLower w'"
    and "flagLayer v w (lowerKey (unicodeLower w') t) = flagLayer v' w' (lowerKey (unicodeLower w') t)"
    and "envLayer v w (lowerKey (unicodeLower w') t) = envLayer v' w' (lowerKey (unicodeLower w') t)"
    and "fileLayer v (lowerKey (unicodeLower w') t) = fileLayer v' (lowerKey (unicodeLower w') t)"
    and "defaultLayer v w (lowerKey (unicodeLower w') t)
           = defaultLayer v' w' (lowerKey (unicodeLower w') t)"
  shows "findv v w t = findv v' w' t"
  unfolding findv_def Let_def assms by (rule refl)

lemma args_setEnv: "args (setEnv w k val) = args w"
  by (simp add: setEnv_def)

lemma findv_setEnv_other:
  assumes "Replace (CHR ''-'', CHR ''_'') (ToUpper (lowerKey (unicodeLower w) t))
             \<noteq> Replace (CHR ''-'', CHR ''_'') (ToUpper k)"
  shows "findv (snd (loaded w)) (setEnv w k val) t = findv (snd (loaded w)) w t"
proof (rule findv_layers_cong)
  show "flagLayer (snd (loaded w)) (setEnv w k val) (lowerKey (unicodeLower w) t)
          = flagLayer (snd (loaded w)) w (lowerKey (unicodeLower w) t)"
    unfolding flagLayer_def args_setEnv by (rule refl)
  show "envLayer (snd (loaded w)) (setEnv w k val) (lowerKey (unicodeLower w) t)
          = envLayer (snd (loaded w)) w (lowerKey (unicodeLower w) t)"
    using assms by (simp add: envLayer_def getEnv_def envName_loaded setEnv_def)
  show "defaultLayer (snd (loaded w)) (setEnv w k val) (lowerKey (unicodeLower w) t)
          = defaultLayer (snd (loaded w)) w (lowerKey (unicodeLower w) t)"
    by (simp add: defaultLayer_def args_setEnv)
qed (simp_all add: setEnv_def)

lemma findv_flags_other:
  assumes "environ w' = environ w" and "unicodeLower w' = unicodeLower w"
    and "\<And>f'. map_of (pflags init) (lowerKey (unicodeLower w) t) = Some f' \<Longrightarrow>
           HasChanged (args w') f' = HasChanged (args w) f'
           \<and> flagValue (args w') f' = flagValue (args w) f'"
  shows "findv (snd (loaded w)) w' t = findv (snd (loaded w)) w t"
proof (rule findv_layers_cong)
  show "flagLayer (snd (loaded w)) w' (lowerKey (unicodeLower w) t) = flagLayer (snd (loaded w)) w (lowerKey (unicodeLower w) t)"
    using assms(3) by (simp add: flagLayer_def loaded_fields split: option.splits)
  show "envLayer (snd (loaded w)) w' (lowerKey (unicodeLower w) t) = envLayer (snd (loaded w)) w (lowerKey (unicodeLower w) t)"
    by (simp add: envLayer_def assms(1))
  show "defaultLayer (snd (loaded w)) w' (lowerKey (unicodeLower w) t)
          = defaultLayer (snd (loaded w)) w (lowerKey (unicodeLower w) t)"
    using assms(3)
    by (cases "map_of (pflags init) (lowerKey (unicodeLower w) t)") (simp_all add: defaultLayer_def loaded_fields)
qed (simp_all add: assms(2))

lemma findv_setEnv_key:
  assumes "(k, n) \<in> set bindings" and "Lookup n = Some f" and "val \<noteq> []"
    and "supplied (args w) f = None"
  shows "findv (snd (loaded w)) (setEnv w k val) k = Some (VStr val)"
proof -
  have b: "map_of (pflags (snd (loaded w))) k = Some f"
    using bound_flag [OF assms(1,2)] by (simp add: loaded_fields)
  have h: "\<not> HasChanged (args w) f"
    using assms(4) by (simp add: supplied_eq split: if_splits)
  have fl: "flagLayer (snd (loaded w)) (setEnv w k val) k = None"
    by (simp add: flagLayer_def b args_setEnv h)
  have e: "envLayer (snd (loaded w)) (setEnv w k val) k = Some (VStr val)"
    using assms(3) by (simp add: envLayer_def loaded_fields getEnv_def envName_loaded setEnv_def)
  show ?thesis
    by (simp add: findv_def lowerKey_bound [OF assms(1)] fl e)
qed

lemma findv_flag_key:
  assumes "(k, n) \<in> set bindings" and "Lookup n = Some f" and "HasChanged (args w') f"
  shows "findv (snd (loaded w)) w' k = Some (flagValue (args w') f)"
proof -
  have b: "map_of (pflags (snd (loaded w))) k = Some f"
    using bound_flag [OF assms(1,2)] by (simp add: loaded_fields)
  have "flagLayer (snd (loaded w)) w' k = Some (flagValue (args w') f)"
    by (simp add: flagLayer_def b assms(3))
  then show ?thesis
    by (simp add: findv_def lowerKey_bound [OF assms(1)])
qed

lemma sameDecode_env_flag:
  assumes "val \<noteq> []"
  shows "sameDecode l (ftyp f) (Some (VStr val))
           (Some (if ftyp f = TStringSlice then VStrs (Split val (CHR '','')) else VStr val))"
  using assms by (cases "ftyp f") (simp_all add: sameDecode_def decodeSlice_def)

lemma bound_names_inj:
  assumes "(t, n) \<in> set bindings" and "(k, n) \<in> set bindings"
  shows "t = k"
proof -
  have "inj_on snd (set bindings)"
    using bindings_names_distinct by (simp add: distinct_map)
  from inj_onD [OF this _ assms] show ?thesis
    by simp
qed

text \<open>
  C7, as the code has it.  For every key that \<^verbatim>\<open>init\<close> binds to the registry
  (every flag of the schema except \<^verbatim>\<open>config\<close> and \<^verbatim>\<open>version\<close>), with its
  flag not supplied: setting the environment variable of the key to a non-empty value
  ends the process exactly as supplying the flag with that value does, with the same
  configuration in every field; for the two string-slice flags this holds when the value
  holds no double quote, no line feed and no carriage return at its end (pflag reads the
  flag's text as one CSV record, the environment value is split at its commas).
\<close>

theorem env_var_equals_flag_for_bound_keys:
  assumes "(k, n) \<in> set bindings" and "Lookup n = Some f"
    and "val \<noteq> []"
    and "supplied (args w) f = None"
    and "ftyp f = TStringSlice \<longrightarrow> dquote \<notin> set val \<and> lf \<notin> set val \<and> last val \<noteq> cr"
  shows "setFlag w f val \<noteq> None
         \<and> main l (setEnv w k val) = mainParsed l (setFlag w f val)"
proof -
  let ?v = "snd (loaded w)"
  from bindings_lookup [OF assms(1)] assms(2) have fn: "fname f = n"
    by auto
  have nc: "fname f \<noteq> ''config''"
    using bound_name_not_config [OF assms(1)] fn by simp
  from setFlag_props [OF nc assms(4,3,5)] obtain w'
    where sf: "setFlag w f val = Some w'"
      and lF: "loaded w' = loaded w"
      and en: "environ w' = environ w"
      and ul: "unicodeLower w' = unicodeLower w"
      and hc: "HasChanged (args w') f"
      and fv: "flagValue (args w') f
                 = (if ftyp f = TStringSlice then VStrs (Split val (CHR '','')) else VStr val)"
      and ot: "\<And>f'. fname f' \<noteq> fname f \<Longrightarrow>
                 HasChanged (args w') f' = HasChanged (args w) f'
                 \<and> flagValue (args w') f' = flagValue (args w) f'"
    by blast
  have lE: "loaded (setEnv w k val) = loaded w"
    by (rule loaded_setEnv)
  have "Unmarshal l (AllSettings ?v (setEnv w k val)) = Unmarshal l (AllSettings ?v w')"
  proof (rule Unmarshal_cong, clarify)
    fix t ty
    assume t: "(t, ty) \<in> set config_fields"
    have low: "lowerKey (unicodeLower w) t = t"
      by (rule lowerKey_tag [OF t])
    show "sameDecode l ty (AllSettings ?v (setEnv w k val) t) (AllSettings ?v w' t)"
    proof (cases "t = k")
      case True
      have ty: "ftyp f = ty"
        using bound_type [OF assms(1,2)] t True by simp
      have "inAllKeys ?v k"
        using in_pflags_init [OF assms(1)] by (simp add: inAllKeys_def loaded_fields)
      then show ?thesis
        using sameDecode_env_flag [OF assms(3), of l f]
        by (simp add: True ty [symmetric] AllSettings_def findv_setEnv_key [OF assms(1-4)]
            findv_flag_key [OF assms(1,2) hc] fv)
    next
      case False
      have "t \<in> set (map fst config_fields)" and "k \<in> set (map fst config_fields)"
        using t assms(1) setting_keys_fields by (force simp: setting_keys_def)+
      with env_names_inj False
      have ne: "Replace (CHR ''-'', CHR ''_'') (ToUpper (lowerKey (unicodeLower w) t))
                  \<noteq> Replace (CHR ''-'', CHR ''_'') (ToUpper k)"
        by (auto simp: low dest: inj_onD)
      have fl: "\<And>f'. map_of (pflags init) (lowerKey (unicodeLower w) t) = Some f' \<Longrightarrow>
                  HasChanged (args w') f' = HasChanged (args w) f'
                  \<and> flagValue (args w') f' = flagValue (args w) f'"
      proof -
        fix f'
        assume "map_of (pflags init) (lowerKey (unicodeLower w) t) = Some f'"
        then obtain n' where n': "(t, n') \<in> set bindings" "fname f' = n'"
          using pflags_init_SomeD [of t f'] by (auto simp: low)
        have "n' \<noteq> n"
        proof
          assume "n' = n"
          with n'(1) assms(1) have "t = k"
            by (simp add: bound_names_inj)
          with False show False
            by simp
        qed
        with n'(2) fn have "fname f' \<noteq> fname f"
          by simp
        then show "HasChanged (args w') f' = HasChanged (args w) f'
                    \<and> flagValue (args w') f' = flagValue (args w) f'"
          by (rule ot)
      qed
      show ?thesis
        by (simp add: AllSettings_def findv_setEnv_other [OF ne] findv_flags_other [OF en ul fl]
            sameDecode_refl)
    qed
  qed
  then have "main l (setEnv w k val) = main l w'"
    by (simp add: main_def snd_initConfig lE lF)
  with sf show ?thesis
    by (simp add: mainParsed_def)
qed

theorem env_var_equals_flag_witness:
  "(''skin'', ''skin'') \<in> set bindings
   \<and> Lookup ''skin'' = Some (mkflag ''skin'' TString (VStr ''default''))
   \<and> supplied (args bareWorld) (mkflag ''skin'' TString (VStr ''default'')) = None
   \<and> setFlag bareWorld (mkflag ''skin'' TString (VStr ''default'')) ''mono'' \<noteq> None
   \<and> main sampleLib (setEnv bareWorld ''skin'' ''mono'')
       = mainParsed sampleLib
           (setFlag bareWorld (mkflag ''skin'' TString (VStr ''default'')) ''mono'')
   \<and> main sampleLib (setEnv bareWorld ''skin'' ''mono'')
       = RunApp (defaultConfig\<lparr>Skin := ''mono''\<rparr>)
   \<and> (''files'', ''file'') \<in> set bindings
   \<and> Lookup ''file'' = Some (mkflag ''file'' TStringSlice (VStrs []))
   \<and> supplied (args bareWorld) (mkflag ''file'' TStringSlice (VStrs [])) = None
   \<and> main sampleLib (setEnv bareWorld ''files'' ''a.log,b.log'')
       = mainParsed sampleLib
           (setFlag bareWorld (mkflag ''file'' TStringSlice (VStrs [])) ''a.log,b.log'')
   \<and> main sampleLib (setEnv bareWorld ''files'' ''a.log,b.log'')
       = RunApp (defaultConfig\<lparr>Files := [''a.log'', ''b.log'']\<rparr>)"
proof -
  have b1: "(''skin'', ''skin'') \<in> set bindings" and b2: "(''files'', ''file'') \<in> set bindings"
    by (simp_all add: bindings_def)
  have l1: "Lookup ''skin'' = Some (mkflag ''skin'' TString (VStr ''default''))"
    and l2: "Lookup ''file'' = Some (mkflag ''file'' TStringSlice (VStrs []))"
    by (simp_all add: Lookup_def rootFlags_def mkflag_def)
  have s1: "supplied (args bareWorld) (mkflag ''skin'' TString (VStr ''default'')) = None"
    and s2: "supplied (args bareWorld) (mkflag ''file'' TStringSlice (VStrs [])) = None"
    by (simp_all add: supplied_def bareWorld_def mkflag_def)
  have n1: "''mono'' \<noteq> []" and n2: "''a.log,b.log'' \<noteq> []"
    by simp_all
  have q1: "ftyp (mkflag ''skin'' TString (VStr ''default'')) = TStringSlice
              \<longrightarrow> dquote \<notin> set ''mono'' \<and> lf \<notin> set ''mono'' \<and> last ''mono'' \<noteq> cr"
    and q2: "ftyp (mkflag ''file'' TStringSlice (VStrs [])) = TStringSlice
              \<longrightarrow> dquote \<notin> set ''a.log,b.log'' \<and> lf \<notin> set ''a.log,b.log''
                  \<and> last ''a.log,b.log'' \<noteq> cr"
    by (simp_all add: mkflag_def dquote_def lf_def cr_def)
  note 1 = env_var_equals_flag_for_bound_keys [OF b1 l1 n1 s1 q1, of sampleLib]
  note 2 = env_var_equals_flag_for_bound_keys [OF b2 l2 n2 s2 q2, of sampleLib]
  have 3: "main sampleLib (setEnv bareWorld ''skin'' ''mono'')
             = RunApp (defaultConfig\<lparr>Skin := ''mono''\<rparr>)"
    by code_simp
  have 4: "main sampleLib (setEnv bareWorld ''files'' ''a.log,b.log'')
             = RunApp (defaultConfig\<lparr>Files := [''a.log'', ''b.log'']\<rparr>)"
    by code_simp
  from 1 have e1: "setFlag bareWorld (mkflag ''skin'' TString (VStr ''default'')) ''mono'' \<noteq> None"
    by (rule conjunct1)
  from 1 have e2: "main sampleLib (setEnv bareWorld ''skin'' ''mono'')
       = mainParsed sampleLib
           (setFlag bareWorld (mkflag ''skin'' TString (VStr ''default'')) ''mono'')"
    by (rule conjunct2)
  from 2 have e3: "main sampleLib (setEnv bareWorld ''files'' ''a.log,b.log'')
       = mainParsed sampleLib
           (setFlag bareWorld (mkflag ''file'' TStringSlice (VStrs [])) ''a.log,b.log'')"
    by (rule conjunct2)
  from b1 l1 s1 e1 e2 3 b2 l2 s2 e3 4 show ?thesis
    by (intro conjI)
qed

text \<open>
  C7 as stated fails for the flag key \<^verbatim>\<open>config\<close>: the flag fills the variable
  \<^verbatim>\<open>cfgFile\<close> and is not bound to the registry, so with
  \<^verbatim>\<open>GONZO_CONFIG=/etc/gonzo.yml\<close> no file is located and \<^verbatim>\<open>skin\<close> keeps its
  default, while \<^verbatim>\<open>--config=/etc/gonzo.yml\<close> reads the file and its
  \<^verbatim>\<open>skin: dracula\<close>.  It also fails for a string-slice flag whose value holds a
  double quote, a line feed or a carriage return at its end: the environment value is
  split at its commas, the flag's text is read as one CSV record.
\<close>

theorem config_env_var_counterexample:
  "Lookup ''config'' = Some (mkflag ''config'' TString (VStr []))
   \<and> environ (setEnv skinFileWorld ''config'' ''/etc/gonzo.yml'') ''GONZO_CONFIG''
       = Some ''/etc/gonzo.yml''
   \<and> locatedFile (setEnv skinFileWorld ''config'' ''/etc/gonzo.yml'') = None
   \<and> map_option locatedFile
        (setFlag skinFileWorld (mkflag ''config'' TString (VStr [])) ''/etc/gonzo.yml'')
       = Some (Some ''/etc/gonzo.yml'')
   \<and> main sampleLib (setEnv skinFileWorld ''config'' ''/etc/gonzo.yml'') = RunApp defaultConfig
   \<and> mainParsed sampleLib
        (setFlag skinFileWorld (mkflag ''config'' TString (VStr [])) ''/etc/gonzo.yml'')
       = RunApp (defaultConfig\<lparr>Skin := ''dracula''\<rparr>)
   \<and> Lookup ''stop-words'' = Some (mkflag ''stop-words'' TStringSlice (VStrs []))
   \<and> main sampleLib (setEnv bareWorld ''stop-words'' (dquote # ''a,b'' @ dquote # '',c''))
       = RunApp (defaultConfig\<lparr>StopWords := [dquote # ''a'', ''b'' @ [dquote], ''c'']\<rparr>)
   \<and> mainParsed sampleLib
        (setFlag bareWorld (mkflag ''stop-words'' TStringSlice (VStrs []))
           (dquote # ''a,b'' @ dquote # '',c''))
       = RunApp (defaultConfig\<lparr>StopWords := [''a,b'', ''c'']\<rparr>)
   \<and> main sampleLib (setEnv bareWorld ''stop-words'' (''a'' @ lf # ''b''))
       = RunApp (defaultConfig\<lparr>StopWords := [''a'' @ lf # ''b'']\<rparr>)
   \<and> mainParsed sampleLib
        (setFlag bareWorld (mkflag ''stop-words'' TStringSlice (VStrs [])) (''a'' @ lf # ''b''))
       = RunApp (defaultConfig\<lparr>StopWords := [''a'']\<rparr>)
   \<and> main sampleLib (setEnv bareWorld ''stop-words'' (''a'' @ [cr]))
       = RunApp (defaultConfig\<lparr>StopWords := [''a'' @ [cr]]\<rparr>)
   \<and> mainParsed sampleLib
        (setFlag bareWorld (mkflag ''stop-words'' TStringSlice (VStrs [])) (''a'' @ [cr]))
       = RunApp (defaultConfig\<lparr>StopWords := [''a'']\<rparr>)"
  by code_simp

end
